theory Spec2Isabelle
  imports Main
begin

section \<open>Data model\<close>

text \<open>
  The failures of \<^verbatim>\<open>parse\<close>. Every \<^verbatim>\<open>throw new Error(...)\<close> of the source is one of the
  first five values, named as the specification names them:
  \<^item> \<^verbatim>\<open>Cannot parse element's tag name: ...\<close> is \<open>TagGrammarError\<close>, with the lower-cased tag name;
  \<^item> \<^verbatim>\<open>Range delimiter ... is placed inside text node\<close> and
    \<^verbatim>\<open>Text range delimiter ... is placed inside empty text node\<close> are \<open>MarkerPlacementError\<close>;
  \<^item> \<^verbatim>\<open>End of range was found ...\<close>, \<^verbatim>\<open>Start of range was found ...\<close> and
    \<^verbatim>\<open>Range was started but no end delimiter was found\<close> are \<open>UnbalancedRangeError\<close>;
  \<^item> \<^verbatim>\<open>There are n ranges found, but ranges order array contains m elements\<close> is
    \<open>RangeCountMismatchError\<close>;
  \<^item> \<^verbatim>\<open>Provided ranges order is invalid\<close> is \<open>InvalidRangeOrderError\<close>.
  \<open>TypeError\<close> is the error the JavaScript runtime raises when a property of \<^verbatim>\<open>null\<close> or
  \<^verbatim>\<open>undefined\<close> is read or written.
\<close>

datatype error =
    TagGrammarError string
  | MarkerPlacementError
  | UnbalancedRangeError
  | RangeCountMismatchError
  | InvalidRangeOrderError
  | TypeError

text \<open>
  The generic tree the HTML processor returns: a document fragment holding element and
  text nodes. A DOM document fragment is never the child of another node, so it is a type of
  its own. An element has its tag name, its attributes in document order and its children.
\<close>

datatype dom_node =
    DomElement string "(string \<times> string) list" "dom_node list"
  | DomText string

datatype dom_root = DomDocumentFragment "dom_node list"

text \<open>
  The typed view tree. \<open>Plain\<close> is a \<^verbatim>\<open>ViewElement\<close>, \<open>Container\<close> a
  \<^verbatim>\<open>ContainerElement\<close>, \<open>Attribute p\<close> an \<^verbatim>\<open>AttributeElement\<close> with priority \<open>p\<close>.

  Modelled from the spec: the classes \<^verbatim>\<open>ViewElement\<close>, \<^verbatim>\<open>ContainerElement\<close>,
  \<^verbatim>\<open>AttributeElement\<close>, \<^verbatim>\<open>ViewText\<close> and \<^verbatim>\<open>ViewDocumentFragment\<close> are imported by the
  source and not part of it. The specification gives an element a name, a kind, an optional
  integer priority that only the attribute kind has, attributes with unique keys, and an
  ordered sequence of children. \<open>Attribute None\<close> is an attribute element whose priority was
  never assigned. Priorities are JavaScript numbers; the model is exact for integers of
  magnitude below \<open>2 ^ 53\<close>.
\<close>

datatype kind = Plain | Container | Attribute "int option"

datatype view =
    Fragment "view list"
  | Element kind string "(string \<times> string) list" "view list"
  | Text string

section \<open>Strings of the JavaScript runtime\<close>

text \<open>\<^verbatim>\<open>String.prototype.toLowerCase\<close>, on the ASCII letters.\<close>

definition toLowerCaseChar :: "char \<Rightarrow> char" where
  "toLowerCaseChar c =
     (let n = (of_char c :: nat) in if 65 \<le> n \<and> n \<le> 90 then char_of (n + 32) else c)"

definition toLowerCase :: "string \<Rightarrow> string" where
  "toLowerCase s = map toLowerCaseChar s"

text \<open>\<^verbatim>\<open>s.split(sep)\<close> for a separator of one character: never an empty array.\<close>

fun split :: "char \<Rightarrow> string \<Rightarrow> string list" where
  "split sep [] = [[]]"
| "split sep (c # cs) =
     (if c = sep then [] # split sep cs
      else (case split sep cs of [] \<Rightarrow> [[c]] | p # ps \<Rightarrow> (c # p) # ps))"

text \<open>\<^verbatim>\<open>parts.join(sep)\<close> on an array of strings.\<close>

fun join :: "string \<Rightarrow> string list \<Rightarrow> string" where
  "join sep [] = []"
| "join sep [p] = p"
| "join sep (p # q # ps) = p @ sep @ join sep (q # ps)"

text \<open>
  \<^verbatim>\<open>parseInt(s, 10)\<close>: leading white space is skipped, one sign is read, then the longest
  run of decimal digits; whatever follows the digits is ignored. Without a digit the
  result is \<^verbatim>\<open>NaN\<close>, here \<open>None\<close>.
\<close>

definition isWhiteSpace :: "char \<Rightarrow> bool" where
  "isWhiteSpace c = ((of_char c :: nat) \<in> {9, 10, 11, 12, 13, 32, 160})"

definition isDigit :: "char \<Rightarrow> bool" where
  "isDigit c = (let n = (of_char c :: nat) in 48 \<le> n \<and> n \<le> 57)"

definition digitValue :: "char \<Rightarrow> int" where
  "digitValue c = int (of_char c) - 48"

definition digitsValue :: "string \<Rightarrow> int" where
  "digitsValue ds = foldl (\<lambda>acc d. acc * 10 + digitValue d) 0 ds"

definition parseDigits :: "string \<Rightarrow> int option" where
  "parseDigits s =
     (let ds = takeWhile isDigit s in if ds = [] then None else Some (digitsValue ds))"

definition parseInt :: "string \<Rightarrow> int option" where
  "parseInt s =
     (case dropWhile isWhiteSpace s of
        [] \<Rightarrow> None
      | c # cs \<Rightarrow>
          if c = CHR ''-'' then map_option uminus (parseDigits cs)
          else if c = CHR ''+'' then parseDigits cs
          else parseDigits (c # cs))"

section \<open>ViewParser: the type-tag grammar and the tree builder\<close>

record info =
  info_name :: string
  info_type :: "string option"
  info_priority :: "int option"

definition convertType :: "string \<Rightarrow> string option" where
  "convertType t = (if t = ''container'' \<or> t = ''attribute'' then Some t else None)"

definition convertPriority :: "string \<Rightarrow> int option" where
  "convertPriority priorityString = parseInt priorityString"

definition convertElementName :: "string \<Rightarrow> error + info" where
  "convertElementName tagName =
     (let parts = split CHR '':'' (toLowerCase tagName) in
      if length parts = 1 then
        Inr \<lparr>info_name = parts ! 0, info_type = None, info_priority = None\<rparr>
      else if length parts = 2 then
        (case convertType (parts ! 0) of
           Some t \<Rightarrow> Inr \<lparr>info_name = parts ! 1, info_type = Some t, info_priority = None\<rparr>
         | None \<Rightarrow>
             (case convertPriority (parts ! 1) of
                Some priority \<Rightarrow>
                  Inr \<lparr>info_name = parts ! 0, info_type = Some ''attribute'',
                       info_priority = Some priority\<rparr>
              | None \<Rightarrow> Inl (TagGrammarError (toLowerCase tagName))))
      else if length parts = 3 then
        (case (convertType (parts ! 0), convertPriority (parts ! 2)) of
           (Some t, Some priority) \<Rightarrow>
             Inr \<lparr>info_name = parts ! 1, info_type = Some t, info_priority = Some priority\<rparr>
         | _ \<Rightarrow> Inl (TagGrammarError (toLowerCase tagName)))
      else Inl (TagGrammarError (toLowerCase tagName)))"

text \<open>
  \<^verbatim>\<open>setAttribute\<close> on the element's attribute map (a JavaScript \<^verbatim>\<open>Map\<close>, which keeps the
  insertion order of its keys and the place of a key that is set again).
\<close>

fun setAttribute :: "string \<Rightarrow> string \<Rightarrow> (string \<times> string) list \<Rightarrow> (string \<times> string) list" where
  "setAttribute k v [] = [(k, v)]"
| "setAttribute k v ((k', v') # ps) =
     (if k = k' then (k, v) # ps else (k', v') # setAttribute k v ps)"

definition copyAttributes :: "(string \<times> string) list \<Rightarrow> (string \<times> string) list" where
  "copyAttributes attributes = foldl (\<lambda>m (k, v). setAttribute k v m) [] attributes"

text \<open>
  \<^verbatim>\<open>_convertElement\<close>: the typed element for a DOM element, still without children. The
  priority is assigned only to an attribute element, and only when the tag name gave one.
\<close>

definition convertElement :: "string \<Rightarrow> (string \<times> string) list \<Rightarrow> error + (view list \<Rightarrow> view)" where
  "convertElement tagName attributes =
     (case convertElementName tagName of
        Inl e \<Rightarrow> Inl e
      | Inr i \<Rightarrow>
          Inr (Element
                (if info_type i = Some ''attribute'' then Attribute (info_priority i)
                 else if info_type i = Some ''container'' then Container
                 else Plain)
                (info_name i) (copyAttributes attributes)))"

text \<open>
  \<^verbatim>\<open>_walkDom\<close> on an element or a text node (\<open>walkDomNode\<close>), on the children of a node in
  order (\<open>walkDomChildren\<close>), and on the document fragment \<^verbatim>\<open>toDom\<close> returns (\<open>walkDom\<close>).
  The element is converted before its children, so its own tag error comes first.
\<close>

fun walkDomNode :: "dom_node \<Rightarrow> error + view"
  and walkDomChildren :: "dom_node list \<Rightarrow> error + view list" where
  "walkDomNode (DomElement tagName attributes children) =
     (case convertElement tagName attributes of
        Inl e \<Rightarrow> Inl e
      | Inr viewElement \<Rightarrow>
          (case walkDomChildren children of
             Inl e \<Rightarrow> Inl e
           | Inr vs \<Rightarrow> Inr (viewElement vs)))"
| "walkDomNode (DomText textContent) = Inr (Text textContent)"
| "walkDomChildren [] = Inr []"
| "walkDomChildren (child # children) =
     (case walkDomNode child of
        Inl e \<Rightarrow> Inl e
      | Inr v \<Rightarrow>
          (case walkDomChildren children of
             Inl e \<Rightarrow> Inl e
           | Inr vs \<Rightarrow> Inr (v # vs)))"

fun walkDom :: "dom_root \<Rightarrow> error + view" where
  "walkDom (DomDocumentFragment children) =
     (if length children = 1 then walkDomNode (children ! 0)
      else (case walkDomChildren children of
              Inl e \<Rightarrow> Inl e
            | Inr vs \<Rightarrow> Inr (Fragment vs)))"

section \<open>Positions, ranges and selections\<close>

text \<open>
  A node of a tree is named by its path from the root: the child indices on the way down,
  the root being \<open>[]\<close>. Two nodes of one tree are the same object exactly when their paths
  are equal, which is how the source compares \<^verbatim>\<open>range.start.parent == element\<close>.

  Modelled from the spec: \<^verbatim>\<open>Position\<close>, \<^verbatim>\<open>Range\<close>, \<^verbatim>\<open>Selection\<close> and the
  \<^verbatim>\<open>parent\<close>, \<^verbatim>\<open>getIndex\<close> and \<^verbatim>\<open>remove\<close> of a node are imported by the source and not
  part of it. A position is an owning node and an offset; a range is a start and an end
  position, collapsed when the two are equal; a selection is an ordered sequence of ranges
  and the flag of its last range. A text node that is the root has no parent: its
  \<^verbatim>\<open>parent\<close> and its index read as \<^verbatim>\<open>null\<close>, and a position built from them is
  \<open>DetachedPosition\<close>, with the offset \<^verbatim>\<open>null\<close> (\<open>None\<close>) or \<^verbatim>\<open>null + 1\<close> (\<open>Some 1\<close>).
\<close>

type_synonym path = "nat list"

datatype position = Position path nat | DetachedPosition "nat option"

datatype view_range = Range (range_start: position) (range_end: position)

definition isCollapsed :: "view_range \<Rightarrow> bool" where
  "isCollapsed r = (range_start r = range_end r)"

record selection =
  getRanges :: "view_range list"
  isBackward :: bool

section \<open>RangeParser\<close>

text \<open>
  The regular expression of \<^verbatim>\<open>_getPositions\<close> is the character class
  \<^verbatim>\<open>[ {}\]\[ ]\<close>: the four tokens and the space that the template string holds at both
  ends of the class.
\<close>

definition regexp :: "char \<Rightarrow> bool" where
  "regexp c = (c = CHR '' '' \<or> c = CHR ''{'' \<or> c = CHR ''}'' \<or> c = CHR '']'' \<or> c = CHR ''['')"

record bracket_info =
  bracket :: char
  textOffset :: nat

text \<open>
  The \<^verbatim>\<open>while ( match = regexp.exec( text ) )\<close> loop: \<open>index\<close> is the index of the character
  in the text, \<open>offset\<close> the number of matches before it.
\<close>

fun getBrackets :: "nat \<Rightarrow> nat \<Rightarrow> string \<Rightarrow> bracket_info list" where
  "getBrackets index offset [] = []"
| "getBrackets index offset (c # cs) =
     (if regexp c
      then \<lparr>bracket = c, textOffset = index - offset\<rparr> # getBrackets (Suc index) (Suc offset) cs
      else getBrackets (Suc index) offset cs)"

text \<open>\<^verbatim>\<open>text.replace( regexp, '' )\<close>\<close>

definition removeBrackets :: "string \<Rightarrow> string" where
  "removeBrackets text = filter (\<lambda>c. \<not> regexp c) text"

record position_item =
  item_bracket :: char
  item_position :: position

text \<open>
  The context of a node is its parent's path and its own index among the parent's present
  children, or \<open>None\<close> for the root.
\<close>

definition nodePath :: "(path \<times> nat) option \<Rightarrow> path" where
  "nodePath ctx = (case ctx of None \<Rightarrow> [] | Some (parent, index) \<Rightarrow> parent @ [index])"

text \<open>\<^verbatim>\<open>new Position( parent, index )\<close> and \<^verbatim>\<open>new Position( parent, index + 1 )\<close>\<close>

definition positionInParent :: "(path \<times> nat) option \<Rightarrow> bool \<Rightarrow> position" where
  "positionInParent ctx after =
     (case ctx of
        Some (parent, index) \<Rightarrow> Position parent (if after then index + 1 else index)
      | None \<Rightarrow> DetachedPosition (if after then Some 1 else None))"

text \<open>The body of the loop over the brackets of one text node; \<open>text\<close> is the stripped text.\<close>

definition bracketPosition :: "(path \<times> nat) option \<Rightarrow> string \<Rightarrow> bracket_info \<Rightarrow> error + position_item" where
  "bracketPosition ctx text item =
     (if text \<noteq> [] then
        (if bracket item = CHR ''{'' \<or> bracket item = CHR ''}'' then
           Inr \<lparr>item_bracket = bracket item,
                item_position = Position (nodePath ctx) (textOffset item)\<rparr>
         else if textOffset item \<noteq> 0 \<and> textOffset item \<noteq> length text then
           Inl MarkerPlacementError
         else
           Inr \<lparr>item_bracket = bracket item,
                item_position = positionInParent ctx (textOffset item \<noteq> 0)\<rparr>)
      else
        (if bracket item = CHR ''{'' \<or> bracket item = CHR ''}'' then Inl MarkerPlacementError
         else Inr \<lparr>item_bracket = bracket item, item_position = positionInParent ctx False\<rparr>))"

fun bracketPositions :: "(path \<times> nat) option \<Rightarrow> string \<Rightarrow> bracket_info list \<Rightarrow> error + position_item list" where
  "bracketPositions ctx text [] = Inr []"
| "bracketPositions ctx text (item # brackets) =
     (case bracketPosition ctx text item of
        Inl e \<Rightarrow> Inl e
      | Inr p \<Rightarrow>
          (case bracketPositions ctx text brackets of
             Inl e \<Rightarrow> Inl e
           | Inr ps \<Rightarrow> Inr (p # ps)))"

text \<open>
  \<^verbatim>\<open>_getPositions\<close> on a text node: the stripped node, or \<open>None\<close> when it was removed, and
  the positions it pushes. An empty text node is removed from its parent before its brackets
  are looked at; one without a parent has none to be removed from, and
  \<^verbatim>\<open>this.parent.removeChildren\<close> is a \<open>TypeError\<close>.
\<close>

definition textPositions :: "(path \<times> nat) option \<Rightarrow> string \<Rightarrow> error + (view option \<times> position_item list)" where
  "textPositions ctx data =
     (let brackets = getBrackets 0 0 data;
          text = removeBrackets data
      in if text = [] \<and> ctx = None then Inl TypeError
         else (case bracketPositions ctx text brackets of
                 Inl e \<Rightarrow> Inl e
               | Inr items \<Rightarrow> Inr (if text = [] then None else Some (Text text), items)))"

text \<open>
  \<^verbatim>\<open>_getPositions\<close>: the node after the scan and the positions pushed, in the order of the
  walk. The children are visited in their original order; the index of a child is its
  index among the children still present, so it does not count the text nodes removed
  before it.
\<close>

fun getPositions :: "(path \<times> nat) option \<Rightarrow> view \<Rightarrow> error + (view option \<times> position_item list)"
  and getChildPositions :: "path \<Rightarrow> nat \<Rightarrow> view list \<Rightarrow> error + (view list \<times> position_item list)" where
  "getPositions ctx (Fragment children) =
     (case getChildPositions (nodePath ctx) 0 children of
        Inl e \<Rightarrow> Inl e
      | Inr (children', items) \<Rightarrow> Inr (Some (Fragment children'), items))"
| "getPositions ctx (Element k name attributes children) =
     (case getChildPositions (nodePath ctx) 0 children of
        Inl e \<Rightarrow> Inl e
      | Inr (children', items) \<Rightarrow> Inr (Some (Element k name attributes children'), items))"
| "getPositions ctx (Text data) = textPositions ctx data"
| "getChildPositions parent index [] = Inr ([], [])"
| "getChildPositions parent index (child # children) =
     (case getPositions (Some (parent, index)) child of
        Inl e \<Rightarrow> Inl e
      | Inr (None, items) \<Rightarrow>
          (case getChildPositions parent index children of
             Inl e \<Rightarrow> Inl e
           | Inr (children', items') \<Rightarrow> Inr (children', items @ items'))
      | Inr (Some child', items) \<Rightarrow>
          (case getChildPositions parent (Suc index) children of
             Inl e \<Rightarrow> Inl e
           | Inr (children', items') \<Rightarrow> Inr (child' # children', items @ items')))"

text \<open>
  \<^verbatim>\<open>_createRanges\<close>. \<open>feed\<close> is the loop over the positions, its state the ranges pushed so
  far and the open range \<open>openRange\<close> (the variable \<^verbatim>\<open>range\<close>, \<open>None\<close> for \<^verbatim>\<open>null\<close>). A bracket that is
  neither start token takes the last branch, where \<^verbatim>\<open>range.end = item.position\<close> is a
  \<open>TypeError\<close> when no range is open.
\<close>

definition isStartToken :: "char \<Rightarrow> bool" where
  "isStartToken b = (b = CHR ''['' \<or> b = CHR ''{'')"

definition isEndToken :: "char \<Rightarrow> bool" where
  "isEndToken b = (b = CHR '']'' \<or> b = CHR ''}'')"

fun feed :: "position_item list \<Rightarrow> view_range list \<times> view_range option \<Rightarrow> error + (view_range list \<times> view_range option)" where
  "feed [] state = Inr state"
| "feed (item # items) (ranges, openRange) =
     (if openRange = None \<and> isEndToken (item_bracket item) then Inl UnbalancedRangeError
      else if openRange \<noteq> None \<and> isStartToken (item_bracket item) then Inl UnbalancedRangeError
      else if isStartToken (item_bracket item) then
        feed items (ranges, Some (Range (item_position item) (item_position item)))
      else
        (case openRange of
           None \<Rightarrow> Inl TypeError
         | Some r \<Rightarrow> feed items (ranges @ [Range (range_start r) (item_position item)], None)))"

definition createRanges :: "position_item list \<Rightarrow> error + view_range list" where
  "createRanges positions =
     (case feed positions ([], None) of
        Inl e \<Rightarrow> Inl e
      | Inr (ranges, openRange) \<Rightarrow> if openRange \<noteq> None then Inl UnbalancedRangeError else Inr ranges)"

text \<open>
  A JavaScript array is a list of optional values, \<open>None\<close> for a hole or \<^verbatim>\<open>undefined\<close>.
  \<open>arrayGet\<close> is \<^verbatim>\<open>a[i]\<close> and \<open>arraySet\<close> is \<^verbatim>\<open>a[i] = v\<close>, which lengthens the array and
  leaves holes when \<open>i\<close> is beyond its end.
\<close>

definition arrayGet :: "'a list \<Rightarrow> int \<Rightarrow> 'a option" where
  "arrayGet a i = (if 0 \<le> i \<and> i < int (length a) then Some (a ! nat i) else None)"

definition arraySet :: "'a option list \<Rightarrow> nat \<Rightarrow> 'a option \<Rightarrow> 'a option list" where
  "arraySet a i v =
     (if i < length a then a[i := v] else a @ replicate (i - length a) None @ [v])"

fun sortRangesLoop :: "view_range list \<Rightarrow> int list \<Rightarrow> nat \<Rightarrow> view_range option list \<Rightarrow> error + view_range option list" where
  "sortRangesLoop ranges [] index sortedRanges = Inr sortedRanges"
| "sortRangesLoop ranges (newPosition # rangesOrder) index sortedRanges =
     (if arrayGet ranges (newPosition - 1) = None then Inl InvalidRangeOrderError
      else sortRangesLoop ranges rangesOrder (Suc index)
             (arraySet sortedRanges (nat (newPosition - 1)) (arrayGet ranges (int index))))"

definition sortRanges :: "view_range list \<Rightarrow> int list \<Rightarrow> error + view_range option list" where
  "sortRanges ranges rangesOrder = sortRangesLoop ranges rangesOrder 0 []"

text \<open>
  \<^verbatim>\<open>RangeParser.parse\<close>: the scanned tree and the array of ranges. The root is never
  removed by the scan (a root text that becomes empty is a \<open>TypeError\<close> there).
\<close>

definition rangeParser_parse :: "view \<Rightarrow> int list \<Rightarrow> error + (view \<times> view_range option list)" where
  "rangeParser_parse node order =
     (case getPositions None node of
        Inl e \<Rightarrow> Inl e
      | Inr (None, positions) \<Rightarrow> Inl TypeError
      | Inr (Some node', positions) \<Rightarrow>
          (case createRanges positions of
             Inl e \<Rightarrow> Inl e
           | Inr ranges \<Rightarrow>
               if order \<noteq> [] then
                 (if length order \<noteq> length ranges then Inl RangeCountMismatchError
                  else (case sortRanges ranges order of
                          Inl e \<Rightarrow> Inl e
                        | Inr sortedRanges \<Rightarrow> Inr (node', sortedRanges)))
               else Inr (node', map Some ranges)))"

section \<open>parse\<close>

record parse_options =
  order :: "int list"
  lastRangeBackward :: bool

datatype parse_result = View view | ViewSelection view selection

text \<open>
  Modelled from the spec: \<^verbatim>\<open>Selection.setRanges\<close> is imported by the source and not part of
  it. The selection holds the ranges it is given, in their order, and the flag. An array
  with a hole holds a value that is no range, and reading its \<^verbatim>\<open>start\<close> is a \<open>TypeError\<close>.
\<close>

definition setRanges :: "view_range option list \<Rightarrow> bool \<Rightarrow> error + selection" where
  "setRanges newRanges isLastBackward =
     (if None \<in> set newRanges then Inl TypeError
      else Inr \<lparr>getRanges = map the newRanges, isBackward = isLastBackward\<rparr>)"

text \<open>\<^verbatim>\<open>parse\<close> from the generic tree on: everything after \<^verbatim>\<open>htmlProcessor.toDom( data )\<close>.\<close>

definition parseDom :: "dom_root \<Rightarrow> parse_options \<Rightarrow> error + parse_result" where
  "parseDom domRoot options =
     (case walkDom domRoot of
        Inl e \<Rightarrow> Inl e
      | Inr view \<Rightarrow>
          (case rangeParser_parse view (order options) of
             Inl e \<Rightarrow> Inl e
           | Inr (view', ranges) \<Rightarrow>
               if ranges \<noteq> [] then
                 (case setRanges ranges (lastRangeBackward options) of
                    Inl e \<Rightarrow> Inl e
                  | Inr selection \<Rightarrow> Inr (ViewSelection view' selection))
               else Inr (View view')))"

text \<open>
  \<^verbatim>\<open>parse( data, options )\<close>. The HTML processor is a collaborator outside the source and
  is the parameter \<open>toDom\<close>.
\<close>

definition parse :: "(string \<Rightarrow> dom_root) \<Rightarrow> string \<Rightarrow> parse_options \<Rightarrow> error + parse_result" where
  "parse toDom data options = parseDom (toDom data) options"

section \<open>ViewStringify\<close>

record stringify_options =
  opt_showType :: bool
  opt_showPriority :: bool

text \<open>The fields of a \<^verbatim>\<open>ViewStringify\<close> that its methods read.\<close>

record viewStringify =
  ranges :: "view_range list"
  showType :: bool
  showPriority :: bool

definition newViewStringify :: "selection option \<Rightarrow> stringify_options \<Rightarrow> viewStringify" where
  "newViewStringify sel options =
     \<lparr>ranges = (case sel of None \<Rightarrow> [] | Some s \<Rightarrow> getRanges s),
      showType = opt_showType options,
      showPriority = opt_showPriority options\<rparr>"

text \<open>
  The values that \<^verbatim>\<open>[ type, element.name, priority ]\<close> holds: a string, a number, or the
  priority of an attribute element that was never assigned. \<^verbatim>\<open>join\<close> writes a number in
  decimal and the missing value as the empty string.
\<close>

datatype js_value = Str string | Num int | Undefined

definition digitChar :: "nat \<Rightarrow> char" where
  "digitChar d = char_of (48 + d)"

fun natToString :: "nat \<Rightarrow> string" where
  "natToString n = (if n < 10 then [digitChar n] else natToString (n div 10) @ [digitChar (n mod 10)])"

declare natToString.simps [simp del]

definition numberToString :: "int \<Rightarrow> string" where
  "numberToString n = (if n < 0 then CHR ''-'' # natToString (nat (- n)) else natToString (nat n))"

fun toString :: "js_value \<Rightarrow> string" where
  "toString (Str s) = s"
| "toString (Num n) = numberToString n"
| "toString Undefined = []"

definition stringifyElementType :: "viewStringify \<Rightarrow> kind \<Rightarrow> string" where
  "stringifyElementType this k =
     (if showType this then
        (case k of Attribute p \<Rightarrow> ''attribute'' | Container \<Rightarrow> ''container'' | Plain \<Rightarrow> [])
      else [])"

definition stringifyElementPriority :: "viewStringify \<Rightarrow> kind \<Rightarrow> js_value" where
  "stringifyElementPriority this k =
     (case k of
        Attribute p \<Rightarrow>
          if showPriority this then (case p of Some n \<Rightarrow> Num n | None \<Rightarrow> Undefined) else Str []
      | _ \<Rightarrow> Str [])"

text \<open>The tag name that \<^verbatim>\<open>_stringifyElementOpen\<close> and \<^verbatim>\<open>_stringifyElementClose\<close> both build.\<close>

definition stringifyElementName :: "viewStringify \<Rightarrow> kind \<Rightarrow> string \<Rightarrow> string" where
  "stringifyElementName this k name =
     join '':''
       (map toString
          (filter (\<lambda>i. i \<noteq> Str [])
             [Str (stringifyElementType this k), Str name, stringifyElementPriority this k]))"

definition stringifyElementAttributes :: "(string \<times> string) list \<Rightarrow> string" where
  "stringifyElementAttributes attributes =
     join '' '' (map (\<lambda>(attribute, v). attribute @ ''='' @ [CHR 0x22] @ v @ [CHR 0x22]) attributes)"

definition stringifyElementOpen :: "viewStringify \<Rightarrow> kind \<Rightarrow> string \<Rightarrow> (string \<times> string) list \<Rightarrow> string" where
  "stringifyElementOpen this k name attributes =
     ''<'' @ join '' '' (filter (\<lambda>i. i \<noteq> [])
                          [stringifyElementName this k name, stringifyElementAttributes attributes])
     @ ''>''"

definition stringifyElementClose :: "viewStringify \<Rightarrow> kind \<Rightarrow> string \<Rightarrow> string" where
  "stringifyElementClose this k name = ''</'' @ stringifyElementName this k name @ ''>''"

text \<open>
  \<^verbatim>\<open>_stringifyElementRanges\<close>: the loop over the ranges with its three strings, and what
  it returns. \<open>element\<close> is the path of the element or fragment.
\<close>

fun elementRangesLoop :: "path \<Rightarrow> nat \<Rightarrow> view_range list \<Rightarrow> string \<times> string \<times> string \<Rightarrow> string \<times> string \<times> string" where
  "elementRangesLoop element offset [] acc = acc"
| "elementRangesLoop element offset (r # rs) (start, end', collapsed) =
     (let (start1, collapsed1) =
            (if range_start r = Position element offset then
               (if isCollapsed r then (start, collapsed @ ''[]'') else (start @ ''['', collapsed))
             else (start, collapsed));
          end1 =
            (if range_end r = Position element offset \<and> \<not> isCollapsed r then end' @ '']''
             else end')
      in elementRangesLoop element offset rs (start1, end1, collapsed1))"

definition stringifyElementRanges :: "viewStringify \<Rightarrow> path \<Rightarrow> nat \<Rightarrow> string" where
  "stringifyElementRanges this element offset =
     (case elementRangesLoop element offset (ranges this) ([], [], []) of
        (start, end', collapsed) \<Rightarrow> end' @ collapsed @ start)"

text \<open>
  \<^verbatim>\<open>_stringifyTextRanges\<close>: one record for each letter and one more for the end of the
  text, the loop over the ranges that appends the tokens to them, and the final join.
  \<open>node\<close> is the path of the text node. Every index written is at most the length of the
  text, so inside the array.
\<close>

record letter_info =
  letter :: string
  letter_start :: string
  letter_end :: string
  letter_collapsed :: string

definition letters :: "string \<Rightarrow> letter_info list" where
  "letters data =
     map (\<lambda>l. \<lparr>letter = l, letter_start = [], letter_end = [], letter_collapsed = []\<rparr>)
       (map (\<lambda>c. [c]) data @ [[]])"

text \<open>
  The three statements of the loop: \<^verbatim>\<open>result[ i ].collapsed += tokens\<close>,
  \<^verbatim>\<open>result[ i ].start += tokens\<close> and \<^verbatim>\<open>result[ i ].end += tokens\<close>.
\<close>

definition addCollapsed :: "letter_info list \<Rightarrow> nat \<Rightarrow> string \<Rightarrow> letter_info list" where
  "addCollapsed result i tokens =
     result[i := (result ! i)\<lparr>letter_collapsed := letter_collapsed (result ! i) @ tokens\<rparr>]"

definition addStart :: "letter_info list \<Rightarrow> nat \<Rightarrow> string \<Rightarrow> letter_info list" where
  "addStart result i tokens =
     result[i := (result ! i)\<lparr>letter_start := letter_start (result ! i) @ tokens\<rparr>]"

definition addEnd :: "letter_info list \<Rightarrow> nat \<Rightarrow> string \<Rightarrow> letter_info list" where
  "addEnd result i tokens =
     result[i := (result ! i)\<lparr>letter_end := letter_end (result ! i) @ tokens\<rparr>]"

text \<open>The body of the loop over the ranges: the two \<^verbatim>\<open>if\<close> statements, in order.\<close>

definition textRangesStart :: "path \<Rightarrow> nat \<Rightarrow> view_range \<Rightarrow> letter_info list \<Rightarrow> letter_info list" where
  "textRangesStart node len r result =
     (case range_start r of
        Position startParent startOffset \<Rightarrow>
          if startParent = node \<and> startOffset \<le> len then
            (if isCollapsed r then
               (case range_end r of
                  Position endParent endOffset \<Rightarrow> addCollapsed result endOffset ''{}''
                | DetachedPosition endOffset \<Rightarrow> result)
             else addStart result startOffset ''{'')
          else result
      | DetachedPosition startOffset \<Rightarrow> result)"

definition textRangesEnd :: "path \<Rightarrow> nat \<Rightarrow> view_range \<Rightarrow> letter_info list \<Rightarrow> letter_info list" where
  "textRangesEnd node len r result =
     (case range_end r of
        Position endParent endOffset \<Rightarrow>
          if endParent = node \<and> endOffset \<le> len \<and> \<not> isCollapsed r
          then addEnd result endOffset ''}''
          else result
      | DetachedPosition endOffset \<Rightarrow> result)"

fun textRangesLoop :: "path \<Rightarrow> nat \<Rightarrow> view_range list \<Rightarrow> letter_info list \<Rightarrow> letter_info list" where
  "textRangesLoop node len [] result = result"
| "textRangesLoop node len (r # rs) result =
     textRangesLoop node len rs (textRangesEnd node len r (textRangesStart node len r result))"

definition stringifyTextRanges :: "viewStringify \<Rightarrow> path \<Rightarrow> string \<Rightarrow> string" where
  "stringifyTextRanges this node data =
     concat (map (\<lambda>item. letter_end item @ letter_collapsed item @ letter_start item @ letter item)
               (textRangesLoop node (length data) (ranges this) (letters data)))"

text \<open>
  \<^verbatim>\<open>_walkView\<close>, the chunks given to the callback appended in order. \<open>walkChildren\<close> is the
  loop over the children: the child at \<open>offset\<close>, then the ranges at \<open>offset + 1\<close>.
\<close>

fun walkView :: "viewStringify \<Rightarrow> path \<Rightarrow> view \<Rightarrow> string"
  and walkChildren :: "viewStringify \<Rightarrow> path \<Rightarrow> nat \<Rightarrow> view list \<Rightarrow> string" where
  "walkView this root (Element k name attributes children) =
     stringifyElementOpen this k name attributes
     @ stringifyElementRanges this root 0
     @ walkChildren this root 0 children
     @ stringifyElementClose this k name"
| "walkView this root (Fragment children) =
     stringifyElementRanges this root 0 @ walkChildren this root 0 children"
| "walkView this root (Text data) = stringifyTextRanges this root data"
| "walkChildren this root offset [] = []"
| "walkChildren this root offset (child # children) =
     walkView this (root @ [offset]) child
     @ stringifyElementRanges this root (Suc offset)
     @ walkChildren this root (Suc offset) children"

definition stringify :: "view \<Rightarrow> selection option \<Rightarrow> stringify_options \<Rightarrow> string" where
  "stringify node sel options = walkView (newViewStringify sel options) [] node"

section \<open>A tokenizer for the markup\<close>

text \<open>
  Modelled from the spec: the HTML processor (\<^verbatim>\<open>HtmlDataProcessor.toDom\<close>) is a collaborator
  outside the source, which takes a string and returns a generic tree of a fragment, elements
  with a tag name and attributes, and texts. \<open>htmlToDom\<close> is a small tokenizer of that shape
  for the markup \<^verbatim>\<open>stringify\<close> writes: \<^verbatim>\<open><name k="v" ...>\<close>, \<^verbatim>\<open></name>\<close> and text between tags.
  The theorems take the processor as a parameter; \<open>htmlToDom\<close> only instantiates it in the
  concrete examples.
\<close>

datatype token = OpenTag string "(string \<times> string) list" | CloseTag string | Chars string

fun pairUp :: "string list \<Rightarrow> (string \<times> string) list" where
  "pairUp (k # v # rest) = (filter (\<lambda>c. c \<noteq> CHR '' '' \<and> c \<noteq> CHR ''='') k, v) # pairUp rest"
| "pairUp _ = []"

definition makeTag :: "string \<Rightarrow> token" where
  "makeTag s =
     (case s of
        [] \<Rightarrow> OpenTag [] []
      | c # cs \<Rightarrow>
          if c = CHR ''/'' then CloseTag cs
          else OpenTag (takeWhile (\<lambda>x. x \<noteq> CHR '' '') s)
                 (pairUp (split (CHR 0x22) (dropWhile (\<lambda>x. x \<noteq> CHR '' '') s))))"

fun tokenize :: "string \<Rightarrow> bool \<Rightarrow> string \<Rightarrow> token list" where
  "tokenize acc inTag [] = (if acc = [] \<or> inTag then [] else [Chars (rev acc)])"
| "tokenize acc False (c # cs) =
     (if c = CHR ''<'' then (if acc = [] then [] else [Chars (rev acc)]) @ tokenize [] True cs
      else tokenize (c # acc) False cs)"
| "tokenize acc True (c # cs) =
     (if c = CHR ''>'' then makeTag (rev acc) # tokenize [] False cs
      else tokenize (c # acc) True cs)"

fun buildDom :: "token list \<Rightarrow> dom_node list \<Rightarrow> (string \<times> (string \<times> string) list \<times> dom_node list) list \<Rightarrow> dom_node list" where
  "buildDom [] current [] = rev current"
| "buildDom [] current ((name, attributes, saved) # stack) =
     buildDom [] (DomElement name attributes (rev current) # saved) stack"
| "buildDom (Chars s # tokens) current stack = buildDom tokens (DomText s # current) stack"
| "buildDom (OpenTag name attributes # tokens) current stack =
     buildDom tokens [] ((name, attributes, current) # stack)"
| "buildDom (CloseTag name # tokens) current [] = buildDom tokens current []"
| "buildDom (CloseTag name # tokens) current ((open', attributes, saved) # stack) =
     buildDom tokens (DomElement open' attributes (rev current) # saved) stack"

definition htmlToDom :: "string \<Rightarrow> dom_root" where
  "htmlToDom data = DomDocumentFragment (buildDom (tokenize [] False data) [] [])"

section \<open>Auxiliary definitions for the statements\<close>

text \<open>The tree and the ranges of what \<^verbatim>\<open>parse\<close> returns: no selection is no range.\<close>

fun resultView :: "parse_result \<Rightarrow> view" where
  "resultView (View v) = v"
| "resultView (ViewSelection v s) = v"

fun resultRanges :: "parse_result \<Rightarrow> view_range list" where
  "resultRanges (View v) = []"
| "resultRanges (ViewSelection v s) = getRanges s"

text \<open>A JavaScript array read as a function of the index.\<close>

definition arrayFun :: "'a option list \<Rightarrow> nat \<Rightarrow> 'a option" where
  "arrayFun a j = (if j < length a then a ! j else None)"

text \<open>The contents of the text nodes of a tree, in the order of the document.\<close>

fun texts :: "view \<Rightarrow> string list" where
  "texts (Fragment children) = concat (map texts children)"
| "texts (Element k name attributes children) = concat (map texts children)"
| "texts (Text data) = [data]"















text \<open>
  The placement rule of the specification at one position: a closing token for every range
  that ends there and is not collapsed, then an opening and closing pair for every range
  collapsed there, then an opening token for every range that starts there and is not
  collapsed.
\<close>

definition endTokens :: "view_range list \<Rightarrow> position \<Rightarrow> string \<Rightarrow> string" where
  "endTokens rs pos tok =
     concat (map (\<lambda>r. if range_end r = pos \<and> \<not> isCollapsed r then tok else []) rs)"

definition collapsedTokens :: "view_range list \<Rightarrow> position \<Rightarrow> string \<Rightarrow> string" where
  "collapsedTokens rs pos pair =
     concat (map (\<lambda>r. if range_start r = pos \<and> isCollapsed r then pair else []) rs)"

definition startTokens :: "view_range list \<Rightarrow> position \<Rightarrow> string \<Rightarrow> string" where
  "startTokens rs pos tok =
     concat (map (\<lambda>r. if range_start r = pos \<and> \<not> isCollapsed r then tok else []) rs)"

definition tokensAt :: "view_range list \<Rightarrow> position \<Rightarrow> string \<Rightarrow> string \<Rightarrow> string" where
  "tokensAt rs pos startToken endToken =
     endTokens rs pos endToken @ collapsedTokens rs pos (startToken @ endToken)
     @ startTokens rs pos startToken"

text \<open>
  The stringifier in the words of the specification: the opening tag, the tokens placed at
  offset 0 of the node, each child followed by the tokens placed at the offset after it, the
  closing tag; no tags for a fragment; for a text node, at every offset from 0 to its
  length, the tokens placed there and then the letter at that offset. The tags are those of
  a stringifier without selection.
\<close>

fun placeTokens :: "view_range list \<Rightarrow> stringify_options \<Rightarrow> path \<Rightarrow> view \<Rightarrow> string"
  and placeChildren :: "view_range list \<Rightarrow> stringify_options \<Rightarrow> path \<Rightarrow> nat \<Rightarrow> view list \<Rightarrow> string" where
  "placeTokens rs options node (Element k name attributes children) =
     stringifyElementOpen (newViewStringify None options) k name attributes
     @ tokensAt rs (Position node 0) ''['' '']''
     @ placeChildren rs options node 0 children
     @ stringifyElementClose (newViewStringify None options) k name"
| "placeTokens rs options node (Fragment children) =
     tokensAt rs (Position node 0) ''['' '']'' @ placeChildren rs options node 0 children"
| "placeTokens rs options node (Text data) =
     concat (map (\<lambda>i. tokensAt rs (Position node i) ''{'' ''}''
                       @ (if i < length data then [data ! i] else []))
               [0..<Suc (length data)])"
| "placeChildren rs options node offset [] = []"
| "placeChildren rs options node offset (child # children) =
     placeTokens rs options (node @ [offset]) child
     @ tokensAt rs (Position node (Suc offset)) ''['' '']''
     @ placeChildren rs options node (Suc offset) children"

text \<open>The ranges of the selection given to \<^verbatim>\<open>stringify\<close>, none without a selection.\<close>

definition selectionRanges :: "selection option \<Rightarrow> view_range list" where
  "selectionRanges sel = (case sel of None \<Rightarrow> [] | Some s \<Rightarrow> getRanges s)"

text \<open>The texts of a node that the scan may have removed.\<close>

fun optTexts :: "view option \<Rightarrow> string list" where
  "optTexts None = []"
| "optTexts (Some v) = texts v"


section \<open>Properties of the tree builder\<close>

lemma split_no_sep: "sep \<notin> set s \<Longrightarrow> split sep s = [s]"
  by (induction s) auto

lemma split_one_sep:
  "sep \<notin> set a \<Longrightarrow> sep \<notin> set b \<Longrightarrow> split sep (a @ sep # b) = [a, b]"
  by (induction a) (auto simp: split_no_sep)

lemma takeWhile_digits_append:
  "\<forall>c\<in>set ds. isDigit c \<Longrightarrow> rest = [] \<or> \<not> isDigit (hd rest) \<Longrightarrow>
   takeWhile isDigit (ds @ rest) = ds"
  by (induction ds) (auto simp: takeWhile_eq_Nil_iff neq_Nil_conv)

lemma isDigit_not_space:
  "isDigit c \<Longrightarrow> \<not> isWhiteSpace c \<and> c \<noteq> CHR ''-'' \<and> c \<noteq> CHR ''+''"
  by (auto simp: isDigit_def isWhiteSpace_def Let_def)

lemma parseInt_digits:
  assumes "\<forall>c\<in>set ds. isDigit c" "ds \<noteq> []" "rest = [] \<or> \<not> isDigit (hd rest)"
  shows "parseInt (ds @ rest) = Some (digitsValue ds)"
proof -
  obtain d ds' where ds: "ds = d # ds'" using assms(2) by (cases ds) auto
  have d: "isDigit d" using assms(1) ds by simp
  have tw: "takeWhile isDigit (ds @ rest) = ds" using takeWhile_digits_append assms by blast
  show ?thesis
    using isDigit_not_space[OF d] tw assms(2) unfolding ds
    by (simp add: parseInt_def parseDigits_def Let_def)
qed

lemma walkDomChildren_iff:
  "(walkDomChildren children = Inr vs) = list_all2 (\<lambda>c v. walkDomNode c = Inr v) children vs"
proof (induction children arbitrary: vs)
  case Nil
  show ?case by auto
next
  case (Cons c cs)
  show ?case
  proof (cases vs)
    case Nil
    then show ?thesis by (auto split: sum.splits)
  next
    case (Cons v vs')
    then show ?thesis using Cons.IH[of vs'] by (auto split: sum.splits)
  qed
qed

text \<open>
  C2, as the code has it. A document fragment with exactly one child, an element or a text,
  is replaced by the conversion of that child, which becomes the root. A fragment with no
  child or with more than one becomes a typed \<open>Fragment\<close> of its converted children, in
  order, when each of them converts.
\<close>

theorem walkDom_fragment:
  "walkDom (DomDocumentFragment [child]) = walkDomNode child
   \<and> (length children \<noteq> 1 \<and> list_all2 (\<lambda>c v. walkDomNode c = Inr v) children vs \<longrightarrow>
        walkDom (DomDocumentFragment children) = Inr (Fragment vs))"
  using walkDomChildren_iff[of children vs] by auto

theorem walkDom_fragment_witness:
  "walkDom (DomDocumentFragment [DomElement ''container:p'' [] []])
     = Inr (Element Container ''p'' [] [])
   \<and> walkDom (DomDocumentFragment [DomElement ''p'' [] [], DomText ''foo''])
     = Inr (Fragment [Element Plain ''p'' [] [], Text ''foo''])
   \<and> walkDom (DomDocumentFragment []) = Inr (Fragment [])"
proof -
  have a: "walkDomNode (DomElement ''container:p'' [] []) = Inr (Element Container ''p'' [] [])"
    by code_simp
  have b: "length [DomElement ''p'' [] [], DomText ''foo''] \<noteq> 1
             \<and> list_all2 (\<lambda>c v. walkDomNode c = Inr v)
                 [DomElement ''p'' [] [], DomText ''foo''] [Element Plain ''p'' [] [], Text ''foo'']"
    by code_simp
  have c: "length ([]::dom_node list) \<noteq> 1 \<and> list_all2 (\<lambda>c v. walkDomNode c = Inr v) [] []"
    by simp
  show ?thesis
    using walkDom_fragment[of "DomElement ''container:p'' [] []"
            "[DomElement ''p'' [] [], DomText ''foo'']" "[Element Plain ''p'' [] [], Text ''foo'']"]
      walkDom_fragment[of "DomText []" "[]" "[]"] a b c
    by simp
qed

text \<open>
  C2 as stated fails: a fragment whose single child is a text node does not become a typed
  \<open>Fragment\<close>; the text node itself is the root.
\<close>

theorem walkDom_single_text_counterexample:
  "walkDom (DomDocumentFragment [DomText ''foo'']) = Inr (Text ''foo'')
   \<and> walkDom (DomDocumentFragment [DomText ''foo'']) \<noteq> Inr (Fragment [Text ''foo''])"
  by simp

text \<open>
  C5, as the code has it. For a tag name whose lower-cased form is \<open>A:B\<close> with one colon and
  \<open>A\<close> neither \<^verbatim>\<open>container\<close> nor \<^verbatim>\<open>attribute\<close>, the element is an attribute element named
  \<open>A\<close> whose priority is \<^verbatim>\<open>parseInt(B, 10)\<close>, and the conversion fails with
  \<open>TagGrammarError\<close>, carrying the lower-cased tag name, exactly when \<^verbatim>\<open>parseInt\<close> gives
  \<^verbatim>\<open>NaN\<close>. \<^verbatim>\<open>parseInt\<close> reads the leading run of digits and ignores what follows it: a \<open>B\<close>
  that starts with digits \<open>ds\<close> followed by a non-digit has the value of \<open>ds\<close>; a \<open>B\<close> that
  starts with a character that is no digit, sign or white space has none. (\<open>B\<close> is at most 15
  characters long, so that the value is an exact JavaScript number.)
\<close>

theorem convertElementName_two_segments:
  "(toLowerCase tagName = A @ CHR '':'' # B \<and> CHR '':'' \<notin> set A \<and> CHR '':'' \<notin> set B
      \<and> A \<noteq> ''container'' \<and> A \<noteq> ''attribute'' \<and> length B \<le> 15 \<longrightarrow>
      walkDomNode (DomElement tagName attributes children) =
        (case parseInt B of
           None \<Rightarrow> Inl (TagGrammarError (A @ CHR '':'' # B))
         | Some n \<Rightarrow>
             (case walkDomChildren children of
                Inl e \<Rightarrow> Inl e
              | Inr vs \<Rightarrow> Inr (Element (Attribute (Some n)) A (copyAttributes attributes) vs))))
   \<and> ((\<forall>c\<in>set ds. isDigit c) \<and> ds \<noteq> [] \<and> (rest = [] \<or> \<not> isDigit (hd rest)) \<longrightarrow>
        parseInt (ds @ rest) = Some (digitsValue ds))
   \<and> (\<not> isDigit c \<and> \<not> isWhiteSpace c \<and> c \<noteq> CHR ''-'' \<and> c \<noteq> CHR ''+'' \<longrightarrow>
        parseInt (c # rest) = None)"
proof (intro conjI impI)
  assume a: "toLowerCase tagName = A @ CHR '':'' # B \<and> CHR '':'' \<notin> set A \<and> CHR '':'' \<notin> set B
      \<and> A \<noteq> ''container'' \<and> A \<noteq> ''attribute'' \<and> length B \<le> 15"
  then have parts: "split CHR '':'' (toLowerCase tagName) = [A, B]"
    by (simp add: split_one_sep)
  have "convertElement tagName attributes =
        (case parseInt B of
           Some n \<Rightarrow> Inr (Element (Attribute (Some n)) A (copyAttributes attributes))
         | None \<Rightarrow> Inl (TagGrammarError (A @ CHR '':'' # B)))"
    using a unfolding convertElement_def convertElementName_def parts Let_def
    by (simp add: convertType_def convertPriority_def split: option.splits)
  then show "walkDomNode (DomElement tagName attributes children) =
        (case parseInt B of
           None \<Rightarrow> Inl (TagGrammarError (A @ CHR '':'' # B))
         | Some n \<Rightarrow>
             (case walkDomChildren children of
                Inl e \<Rightarrow> Inl e
              | Inr vs \<Rightarrow> Inr (Element (Attribute (Some n)) A (copyAttributes attributes) vs)))"
    by (simp split: option.splits)
next
  assume "(\<forall>c\<in>set ds. isDigit c) \<and> ds \<noteq> [] \<and> (rest = [] \<or> \<not> isDigit (hd rest))"
  then show "parseInt (ds @ rest) = Some (digitsValue ds)" using parseInt_digits by blast
next
  assume "\<not> isDigit c \<and> \<not> isWhiteSpace c \<and> c \<noteq> CHR ''-'' \<and> c \<noteq> CHR ''+''"
  then show "parseInt (c # rest) = None"
    by (simp add: parseInt_def parseDigits_def)
qed

theorem convertElementName_two_segments_witness:
  "walkDomNode (DomElement ''B:10px'' [(''class'', ''x'')] [DomText ''foo''])
     = Inr (Element (Attribute (Some 10)) ''b'' [(''class'', ''x'')] [Text ''foo''])
   \<and> parseInt ''10px'' = Some 10
   \<and> parseInt ''c'' = None
   \<and> walkDomNode (DomElement ''b:c'' [] []) = Inl (TagGrammarError ''b:c'')"
proof -
  have h1: "toLowerCase ''B:10px'' = ''b'' @ CHR '':'' # ''10px'' \<and> CHR '':'' \<notin> set ''b''
      \<and> CHR '':'' \<notin> set ''10px'' \<and> ''b'' \<noteq> ''container'' \<and> ''b'' \<noteq> ''attribute''
      \<and> length ''10px'' \<le> 15"
    by code_simp
  have h2: "(\<forall>c\<in>set ''10''. isDigit c) \<and> ''10'' \<noteq> [] \<and> (''px'' = [] \<or> \<not> isDigit (hd ''px''))"
    by (simp add: isDigit_def)
  have h3: "\<not> isDigit CHR ''c'' \<and> \<not> isWhiteSpace CHR ''c'' \<and> CHR ''c'' \<noteq> CHR ''-''
      \<and> CHR ''c'' \<noteq> CHR ''+''"
    by (simp add: isDigit_def isWhiteSpace_def)
  have h4: "toLowerCase ''b:c'' = ''b'' @ CHR '':'' # ''c'' \<and> CHR '':'' \<notin> set ''b''
      \<and> CHR '':'' \<notin> set ''c'' \<and> ''b'' \<noteq> ''container'' \<and> ''b'' \<noteq> ''attribute''
      \<and> length ''c'' \<le> 15"
    by code_simp
  have v: "digitsValue ''10'' = 10" by (simp add: digitsValue_def digitValue_def)
  have ca: "copyAttributes [(''class'', ''x'')] = [(''class'', ''x'')]"
    by (simp add: copyAttributes_def)
  have t1: "walkDomNode (DomElement ''B:10px'' [(''class'', ''x'')] [DomText ''foo''])
     = Inr (Element (Attribute (Some 10)) ''b'' [(''class'', ''x'')] [Text ''foo''])
     \<and> parseInt ''10px'' = Some 10"
    using convertElementName_two_segments[of "''B:10px''" "''b''" "''10px''"
              "[(''class'', ''x'')]" "[DomText ''foo'']" "''10''" "''px''" "CHR ''c''"]
          h1 h2 v ca
    by simp
  have t2: "parseInt ''c'' = None \<and> walkDomNode (DomElement ''b:c'' [] []) = Inl (TagGrammarError ''b:c'')"
    using convertElementName_two_segments[of "''b:c''" "''b''" "''c''" "[]" "[]" "''10''" "[]"
              "CHR ''c''"]
          h3 h4
    by simp
  show ?thesis using t1 t2 by simp
qed

text \<open>
  C5 as stated fails: \<^verbatim>\<open>b:10px\<close> and \<^verbatim>\<open>b:1.5\<close> are not rejected. \<^verbatim>\<open>parseInt\<close> stops at the
  first character that is not a digit, so they are attribute elements of priority 10 and 1.
\<close>

theorem convertElementName_prefix_counterexample:
  "walkDomNode (DomElement ''b:10px'' [] []) = Inr (Element (Attribute (Some 10)) ''b'' [] [])
   \<and> walkDomNode (DomElement ''b:1.5'' [] []) = Inr (Element (Attribute (Some 1)) ''b'' [] [])"
  by code_simp

section \<open>Properties of the range parser\<close>

lemma rangeParser_parse_unordered:
  "rangeParser_parse v [] = Inr (v', map Some rs) \<longleftrightarrow>
   (\<exists>ps. getPositions None v = Inr (Some v', ps) \<and> createRanges ps = Inr rs)"
  by (auto simp: rangeParser_parse_def inj_map_eq_map[OF inj_Some] split: sum.splits option.splits prod.splits)

lemma rangeParser_parse_ordered:
  assumes "rangeParser_parse v [] = Inr (v', map Some rs)" "ord \<noteq> []"
  shows "rangeParser_parse v ord =
     (if length ord \<noteq> length rs then Inl RangeCountMismatchError
      else (case sortRanges rs ord of Inl e \<Rightarrow> Inl e | Inr a \<Rightarrow> Inr (v', a)))"
proof -
  from assms(1) obtain ps where "getPositions None v = Inr (Some v', ps)" "createRanges ps = Inr rs"
    using rangeParser_parse_unordered by blast
  then show ?thesis using assms(2) by (simp add: rangeParser_parse_def)
qed

lemma arrayGet_None: "arrayGet a i = None \<longleftrightarrow> i < 0 \<or> int (length a) \<le> i"
  by (auto simp: arrayGet_def)

lemma sortRangesLoop_error:
  "sortRangesLoop rs ord i a = Inl e \<Longrightarrow> e = InvalidRangeOrderError \<and> (\<exists>p\<in>set ord. p < 1 \<or> int (length rs) < p)"
proof (induction ord arbitrary: i a)
  case Nil then show ?case by simp
next
  case (Cons p ord)
  show ?case
  proof (cases "arrayGet rs (p - 1) = None")
    case True
    then show ?thesis using Cons.prems by (auto simp: arrayGet_None)
  next
    case False
    have "sortRangesLoop rs ord (Suc i) (arraySet a (nat (p - 1)) (arrayGet rs (int i))) = Inl e"
      using Cons.prems False by (simp only: sortRangesLoop.simps if_False)
    from Cons.IH[OF this] show ?thesis by auto
  qed
qed

lemma sortRangesLoop_ok:
  "\<forall>p\<in>set ord. 1 \<le> p \<and> p \<le> int (length rs) \<Longrightarrow> \<exists>a'. sortRangesLoop rs ord i a = Inr a'"
  by (induction ord arbitrary: i a) (auto simp: arrayGet_None)

lemma sortRangesLoop_Inr_range:
  "sortRangesLoop rs ord i a = Inr a' \<Longrightarrow> \<forall>p\<in>set ord. 1 \<le> p \<and> p \<le> int (length rs)"
  by (induction ord arbitrary: i a) (auto simp: arrayGet_None split: if_splits)

lemma sortRanges_error_iff:
  "(\<exists>e. sortRanges rs ord = Inl e) \<longleftrightarrow> (\<exists>p\<in>set ord. p < 1 \<or> int (length rs) < p)"
proof
  assume "\<exists>e. sortRanges rs ord = Inl e"
  then show "\<exists>p\<in>set ord. p < 1 \<or> int (length rs) < p"
    unfolding sortRanges_def using sortRangesLoop_error by blast
next
  assume a: "\<exists>p\<in>set ord. p < 1 \<or> int (length rs) < p"
  show "\<exists>e. sortRanges rs ord = Inl e"
  proof (rule ccontr)
    assume "\<not> (\<exists>e. sortRanges rs ord = Inl e)"
    then obtain a' where "sortRangesLoop rs ord 0 [] = Inr a'"
      unfolding sortRanges_def by (cases "sortRangesLoop rs ord 0 []") auto
    from sortRangesLoop_Inr_range[OF this] show False using a by fastforce
  qed
qed

lemma sortRanges_error_value: "sortRanges rs ord = Inl e \<Longrightarrow> e = InvalidRangeOrderError"
  unfolding sortRanges_def using sortRangesLoop_error by blast

lemma length_arraySet: "length (arraySet a i v) = max (length a) (Suc i)"
  by (auto simp: arraySet_def)

lemma arrayFun_arraySet: "arrayFun (arraySet a i v) = (arrayFun a)(i := v)"
  by (rule ext) (auto simp: arrayFun_def arraySet_def nth_append)


lemma sortRangesLoop_length:
  "sortRangesLoop rs ord i a = Inr a' \<Longrightarrow> length a' \<le> max (length a) (length rs)"
proof (induction ord arbitrary: i a)
  case Nil then show ?case by simp
next
  case (Cons p ord)
  have ok: "arrayGet rs (p - 1) \<noteq> None" using Cons.prems by (auto split: if_splits)
  then have p: "1 \<le> p" "p \<le> int (length rs)" by (auto simp: arrayGet_None)
  have "sortRangesLoop rs ord (Suc i) (arraySet a (nat (p - 1)) (arrayGet rs (int i))) = Inr a'"
    using Cons.prems ok by (simp only: sortRangesLoop.simps if_False)
  from Cons.IH[OF this] show ?case using p by (auto simp: length_arraySet)
qed

lemma sortRangesLoop_result:
  "sortRangesLoop rs ord i a = Inr a' \<Longrightarrow> i + length ord \<le> length rs \<Longrightarrow> distinct ord \<Longrightarrow>
   (\<forall>k<length ord. arrayFun a' (nat (ord ! k - 1)) = Some (rs ! (i + k)))
   \<and> (\<forall>j. j \<notin> (\<lambda>p. nat (p - 1)) ` set ord \<longrightarrow> arrayFun a' j = arrayFun a j)"
proof (induction ord arbitrary: i a)
  case Nil then show ?case by simp
next
  case (Cons p ord)
  have ok: "arrayGet rs (p - 1) \<noteq> None" using Cons.prems by (auto split: if_splits)
  then have p: "1 \<le> p" "p \<le> int (length rs)" by (auto simp: arrayGet_None)
  let ?a1 = "arraySet a (nat (p - 1)) (arrayGet rs (int i))"
  have step: "sortRangesLoop rs ord (Suc i) ?a1 = Inr a'"
    using Cons.prems ok by (simp only: sortRangesLoop.simps if_False)
  have ran: "\<forall>q\<in>set ord. 1 \<le> q"
    using sortRangesLoop_Inr_range[OF step] by simp
  have IH: "(\<forall>k<length ord. arrayFun a' (nat (ord ! k - 1)) = Some (rs ! (Suc i + k)))
   \<and> (\<forall>j. j \<notin> (\<lambda>p. nat (p - 1)) ` set ord \<longrightarrow> arrayFun a' j = arrayFun ?a1 j)"
    using Cons.IH[OF step] Cons.prems by simp
  have i: "i < length rs" using Cons.prems by simp
  have notin: "nat (p - 1) \<notin> (\<lambda>p. nat (p - 1)) ` set ord"
  proof
    assume "nat (p - 1) \<in> (\<lambda>p. nat (p - 1)) ` set ord"
    then obtain q where q: "q \<in> set ord" "nat (q - 1) = nat (p - 1)" by auto
    then have "q = p" using ran p by auto
    then show False using Cons.prems(3) q by simp
  qed
  have first: "arrayFun a' (nat (p - 1)) = Some (rs ! i)"
    using IH notin i by (simp add: arrayFun_arraySet arrayGet_def)
  show ?case
  proof (intro conjI allI impI)
    fix k assume "k < length (p # ord)"
    then show "arrayFun a' (nat ((p # ord) ! k - 1)) = Some (rs ! (i + k))"
      using first IH by (cases k) auto
  next
    fix j assume "j \<notin> (\<lambda>p. nat (p - 1)) ` set (p # ord)"
    then show "arrayFun a' j = arrayFun a j"
      using IH by (simp add: arrayFun_arraySet)
  qed
qed

lemma sortRanges_permutation:
  assumes len: "length ord = length rs" and ran: "\<forall>p\<in>set ord. 1 \<le> p \<and> p \<le> int (length rs)"
    and dist: "distinct ord"
  shows "\<exists>a. sortRanges rs ord = Inr a \<and> length a = length rs \<and> None \<notin> set a
           \<and> (\<forall>k<length rs. a ! nat (ord ! k - 1) = Some (rs ! k))"
proof -
  obtain a where a: "sortRangesLoop rs ord 0 [] = Inr a" using sortRangesLoop_ok[OF ran] by blast
  have res: "\<forall>k<length ord. arrayFun a (nat (ord ! k - 1)) = Some (rs ! k)"
    using sortRangesLoop_result[OF a] len dist by simp
  have le: "length a \<le> length rs" using sortRangesLoop_length[OF a] by simp
  let ?t = "\<lambda>p. nat (p - 1)"
  have inj: "inj_on ?t (set ord)"
  proof (rule inj_onI)
    fix x y assume "x \<in> set ord" "y \<in> set ord" "nat (x - 1) = nat (y - 1)"
    moreover from this have "1 \<le> x" "1 \<le> y" using ran by auto
    ultimately show "x = y" by simp
  qed
  have sub: "?t ` set ord \<subseteq> {0..<length rs}" using ran by auto
  have "card (?t ` set ord) = length rs"
    using inj dist len by (simp add: card_image distinct_card)
  then have eq: "?t ` set ord = {0..<length rs}"
    using sub by (simp add: card_subset_eq)
  have all: "\<forall>j<length rs. \<exists>y. arrayFun a j = Some y"
  proof (intro allI impI)
    fix j assume "j < length rs"
    then have "j \<in> ?t ` set ord" using eq by simp
    then obtain k where "k < length ord" "?t (ord ! k) = j" by (auto simp: in_set_conv_nth)
    then show "\<exists>y. arrayFun a j = Some y" using res by auto
  qed
  have ge: "length rs \<le> length a"
  proof (rule ccontr)
    assume "\<not> length rs \<le> length a"
    then have "length a < length rs" by simp
    then obtain y where "arrayFun a (length a) = Some y" using all by blast
    then show False by (simp add: arrayFun_def)
  qed
  have lena: "length a = length rs" using le ge by simp
  have none: "None \<notin> set a"
    using all lena by (auto simp: in_set_conv_nth arrayFun_def)
  have "\<forall>k<length rs. a ! nat (ord ! k - 1) = Some (rs ! k)"
  proof (intro allI impI)
    fix k assume k: "k < length rs"
    then have "arrayFun a (nat (ord ! k - 1)) = Some (rs ! k)" using res len by simp
    then show "a ! nat (ord ! k - 1) = Some (rs ! k)" by (auto simp: arrayFun_def split: if_splits)
  qed
  then show ?thesis using a lena none by (auto simp: sortRanges_def)
qed

lemma setRanges_Some: "setRanges (map Some rs) b = Inr \<lparr>getRanges = rs, isBackward = b\<rparr>"
  by (auto simp: setRanges_def comp_def)

lemma rangeParser_parse_unordered_shape:
  "rangeParser_parse v [] = Inr (v', a) \<Longrightarrow> \<exists>rs. a = map Some rs"
  by (auto simp: rangeParser_parse_def split: sum.splits option.splits prod.splits)

lemma parseDom_unordered:
  assumes "parseDom d \<lparr>order = [], lastRangeBackward = b\<rparr> = Inr res"
  shows "\<exists>v. walkDom d = Inr v
           \<and> rangeParser_parse v [] = Inr (resultView res, map Some (resultRanges res))"
proof -
  from assms obtain v where v: "walkDom d = Inr v"
    by (auto simp: parseDom_def split: sum.splits)
  from assms v obtain v' a where a: "rangeParser_parse v [] = Inr (v', a)"
    by (auto simp: parseDom_def split: sum.splits)
  then obtain rs where rs: "a = map Some rs" using rangeParser_parse_unordered_shape by blast
  have "res = (if rs \<noteq> [] then ViewSelection v' \<lparr>getRanges = rs, isBackward = b\<rparr> else View v')"
    using assms v a rs by (auto simp: parseDom_def setRanges_Some)
  then have "resultView res = v'" "resultRanges res = rs" by (auto split: if_splits)
  then show ?thesis using v a rs by auto
qed

text \<open>
  C3, as the code has it. Let \<^verbatim>\<open>parse\<close> without an order succeed with the ranges \<open>rs\<close>, in
  the order of the document, and let the order sequence be non-empty. Then \<^verbatim>\<open>parse\<close> with
  that order fails with \<open>RangeCountMismatchError\<close> exactly when the length of the sequence
  differs from the number of ranges, and with \<open>InvalidRangeOrderError\<close> exactly when the
  lengths agree and some target index is outside \<open>1..n\<close>. When the lengths agree and the
  target indices are in range and distinct, \<^verbatim>\<open>parse\<close> succeeds, and the range found \<open>k\<close>-th
  is the range at index \<open>order[k] - 1\<close> of the selection. A repeated target index is not
  looked for.
\<close>

theorem order_validation:
  "parse toDom data \<lparr>order = [], lastRangeBackward = b\<rparr> = Inr res \<and> ord \<noteq> [] \<longrightarrow>
     ((parse toDom data \<lparr>order = ord, lastRangeBackward = b\<rparr> = Inl RangeCountMismatchError)
        = (length ord \<noteq> length (resultRanges res)))
   \<and> ((parse toDom data \<lparr>order = ord, lastRangeBackward = b\<rparr> = Inl InvalidRangeOrderError)
        = (length ord = length (resultRanges res)
           \<and> (\<exists>p\<in>set ord. p < 1 \<or> int (length (resultRanges res)) < p)))
   \<and> (length ord = length (resultRanges res)
        \<and> (\<forall>p\<in>set ord. 1 \<le> p \<and> p \<le> int (length (resultRanges res))) \<and> distinct ord \<longrightarrow>
        (\<exists>sel. parse toDom data \<lparr>order = ord, lastRangeBackward = b\<rparr>
                 = Inr (ViewSelection (resultView res) sel)
           \<and> isBackward sel = b
           \<and> length (getRanges sel) = length (resultRanges res)
           \<and> (\<forall>k<length ord. getRanges sel ! nat (ord ! k - 1) = resultRanges res ! k)))"
proof (intro impI)
  assume h: "parse toDom data \<lparr>order = [], lastRangeBackward = b\<rparr> = Inr res \<and> ord \<noteq> []"
  let ?rs = "resultRanges res"
  let ?P = "parse toDom data \<lparr>order = ord, lastRangeBackward = b\<rparr>"
  from h obtain v where v: "walkDom (toDom data) = Inr v"
    and un: "rangeParser_parse v [] = Inr (resultView res, map Some ?rs)"
    using parseDom_unordered unfolding parse_def by blast
  have rp: "rangeParser_parse v ord =
     (if length ord \<noteq> length ?rs then Inl RangeCountMismatchError
      else (case sortRanges ?rs ord of Inl e \<Rightarrow> Inl e | Inr a \<Rightarrow> Inr (resultView res, a)))"
    using rangeParser_parse_ordered[OF un] h by simp
  have P: "?P = (case rangeParser_parse v ord of Inl e \<Rightarrow> Inl e
     | Inr (view', rgs) \<Rightarrow> if rgs \<noteq> [] then
         (case setRanges rgs b of Inl e \<Rightarrow> Inl e | Inr sel \<Rightarrow> Inr (ViewSelection view' sel))
       else Inr (View view'))"
    using v by (simp add: parse_def parseDom_def split: sum.splits prod.splits)
  have setR: "\<And>a e. setRanges a b = Inl e \<Longrightarrow> e = TypeError"
    by (auto simp: setRanges_def split: if_splits)
  have c1: "(?P = Inl RangeCountMismatchError) = (length ord \<noteq> length ?rs)"
  proof (cases "length ord \<noteq> length ?rs")
    case True then show ?thesis using P rp by simp
  next
    case False
    then show ?thesis using P rp
      by (auto split: sum.splits prod.splits if_splits dest: sortRanges_error_value setR)
  qed
  have c2: "(?P = Inl InvalidRangeOrderError)
        = (length ord = length ?rs \<and> (\<exists>p\<in>set ord. p < 1 \<or> int (length ?rs) < p))"
  proof (cases "length ord \<noteq> length ?rs")
    case True then show ?thesis using P rp by simp
  next
    case False
    show ?thesis
    proof (cases "sortRanges ?rs ord")
      case (Inl e)
      then have "e = InvalidRangeOrderError" using sortRanges_error_value by blast
      moreover have "\<exists>p\<in>set ord. p < 1 \<or> int (length ?rs) < p"
        using Inl sortRanges_error_iff[of ?rs ord] by blast
      ultimately show ?thesis using P rp False Inl by simp
    next
      case (Inr a)
      then have "\<not> (\<exists>p\<in>set ord. p < 1 \<or> int (length ?rs) < p)"
        using sortRanges_error_iff[of ?rs ord] by auto
      moreover have "?P \<noteq> Inl InvalidRangeOrderError"
        using P rp False Inr by (auto split: sum.splits dest: setR)
      ultimately show ?thesis by blast
    qed
  qed
  have c3: "length ord = length ?rs
        \<and> (\<forall>p\<in>set ord. 1 \<le> p \<and> p \<le> int (length ?rs)) \<and> distinct ord \<longrightarrow>
        (\<exists>sel. ?P = Inr (ViewSelection (resultView res) sel)
           \<and> isBackward sel = b
           \<and> length (getRanges sel) = length ?rs
           \<and> (\<forall>k<length ord. getRanges sel ! nat (ord ! k - 1) = ?rs ! k))"
  proof (intro impI)
    assume a: "length ord = length ?rs
        \<and> (\<forall>p\<in>set ord. 1 \<le> p \<and> p \<le> int (length ?rs)) \<and> distinct ord"
    then obtain arr where arr: "sortRanges ?rs ord = Inr arr" "length arr = length ?rs"
       "None \<notin> set arr" "\<forall>k<length ?rs. arr ! nat (ord ! k - 1) = Some (?rs ! k)"
      using sortRanges_permutation[of ord ?rs] by blast
    have ne: "arr \<noteq> []" using arr(2) a h by auto
    let ?sel = "\<lparr>getRanges = map the arr, isBackward = b\<rparr>"
    have "?P = Inr (ViewSelection (resultView res) ?sel)"
      using P rp a arr ne by (simp add: setRanges_def)
    moreover have "\<forall>k<length ord. getRanges ?sel ! nat (ord ! k - 1) = ?rs ! k"
    proof (intro allI impI)
      fix k assume k: "k < length ord"
      then have "ord ! k \<in> set ord" by simp
      then have "nat (ord ! k - 1) < length arr" using a arr(2) by auto
      then show "getRanges ?sel ! nat (ord ! k - 1) = ?rs ! k" using arr(4) k a by simp
    qed
    ultimately show "\<exists>sel. ?P = Inr (ViewSelection (resultView res) sel)
           \<and> isBackward sel = b
           \<and> length (getRanges sel) = length ?rs
           \<and> (\<forall>k<length ord. getRanges sel ! nat (ord ! k - 1) = ?rs ! k)"
      using arr(2) by (intro exI[of _ ?sel]) simp
  qed
  show "((?P = Inl RangeCountMismatchError) = (length ord \<noteq> length ?rs))
   \<and> ((?P = Inl InvalidRangeOrderError)
        = (length ord = length ?rs \<and> (\<exists>p\<in>set ord. p < 1 \<or> int (length ?rs) < p)))
   \<and> (length ord = length ?rs
        \<and> (\<forall>p\<in>set ord. 1 \<le> p \<and> p \<le> int (length ?rs)) \<and> distinct ord \<longrightarrow>
        (\<exists>sel. ?P = Inr (ViewSelection (resultView res) sel)
           \<and> isBackward sel = b
           \<and> length (getRanges sel) = length ?rs
           \<and> (\<forall>k<length ord. getRanges sel ! nat (ord ! k - 1) = ?rs ! k)))"
    using c1 c2 c3 by blast
qed

theorem order_validation_witness:
  "parse htmlToDom ''<p>[<b>a</b>]{b}</p>'' \<lparr>order = [1], lastRangeBackward = False\<rparr>
     = Inl RangeCountMismatchError
   \<and> parse htmlToDom ''<p>[<b>a</b>]{b}</p>'' \<lparr>order = [3, 1], lastRangeBackward = False\<rparr>
     = Inl InvalidRangeOrderError
   \<and> parse htmlToDom ''<p>[<b>a</b>]{b}</p>'' \<lparr>order = [2, 1], lastRangeBackward = False\<rparr>
     \<noteq> Inl InvalidRangeOrderError
   \<and> parse htmlToDom ''<p>[<b>a</b>]{b}</p>'' \<lparr>order = [2, 1], lastRangeBackward = False\<rparr>
     \<noteq> Inl RangeCountMismatchError"
proof -
  let ?res = "ViewSelection (Element Plain ''p'' [] [Element Plain ''b'' [] [Text ''a''], Text ''b''])
       \<lparr>getRanges = [Range (Position [] 0) (Position [] 1), Range (Position [1] 0) (Position [1] 1)],
          isBackward = False\<rparr>"
  have h: "parse htmlToDom ''<p>[<b>a</b>]{b}</p>'' \<lparr>order = [], lastRangeBackward = False\<rparr>
             = Inr ?res"
    by code_simp
  show ?thesis
    using order_validation[of htmlToDom "''<p>[<b>a</b>]{b}</p>''" False ?res "[1]"]
      order_validation[of htmlToDom "''<p>[<b>a</b>]{b}</p>''" False ?res "[3, 1]"]
      order_validation[of htmlToDom "''<p>[<b>a</b>]{b}</p>''" False ?res "[2, 1]"]
      h
    by simp
qed

text \<open>
  C3 as stated fails: the order \<open>[1, 1]\<close> repeats a target index and is accepted. The second
  range overwrites the first and the selection holds one range.
\<close>

theorem order_duplicate_counterexample:
  "parse htmlToDom ''<p>[<b>a</b>]{b}</p>'' \<lparr>order = [1, 1], lastRangeBackward = False\<rparr>
     = Inr (ViewSelection (Element Plain ''p'' [] [Element Plain ''b'' [] [Text ''a''], Text ''b''])
         \<lparr>getRanges = [Range (Position [1] 0) (Position [1] 1)], isBackward = False\<rparr>)
   \<and> parse htmlToDom ''<p>[<b>a</b>]{b}</p>'' \<lparr>order = [1, 1], lastRangeBackward = False\<rparr>
     \<noteq> Inl InvalidRangeOrderError"
proof -
  have "parse htmlToDom ''<p>[<b>a</b>]{b}</p>'' \<lparr>order = [1, 1], lastRangeBackward = False\<rparr>
     = Inr (ViewSelection (Element Plain ''p'' [] [Element Plain ''b'' [] [Text ''a''], Text ''b''])
         \<lparr>getRanges = [Range (Position [1] 0) (Position [1] 1)], isBackward = False\<rparr>)"
    by code_simp
  then show ?thesis by simp
qed

text \<open>
  C4. When \<^verbatim>\<open>parse\<close> without an order finds exactly two ranges, \<open>r1\<close> then \<open>r2\<close> in the order
  of the document, \<^verbatim>\<open>parse\<close> with the order \<open>[2, 1]\<close> returns the same tree and the
  selection \<open>[r2, r1]\<close>.
\<close>

theorem order_two_one:
  "parse toDom data \<lparr>order = [], lastRangeBackward = b\<rparr>
     = Inr (ViewSelection v \<lparr>getRanges = [r1, r2], isBackward = b\<rparr>) \<longrightarrow>
   parse toDom data \<lparr>order = [2, 1], lastRangeBackward = b\<rparr>
     = Inr (ViewSelection v \<lparr>getRanges = [r2, r1], isBackward = b\<rparr>)"
proof
  assume h: "parse toDom data \<lparr>order = [], lastRangeBackward = b\<rparr>
     = Inr (ViewSelection v \<lparr>getRanges = [r1, r2], isBackward = b\<rparr>)"
  then obtain v0 where v0: "walkDom (toDom data) = Inr v0"
    and un: "rangeParser_parse v0 [] = Inr (v, map Some [r1, r2])"
    using parseDom_unordered[of "toDom data" b] unfolding parse_def by fastforce
  have "rangeParser_parse v0 [2, 1] = Inr (v, [Some r2, Some r1])"
    using rangeParser_parse_ordered[OF un, of "[2, 1]"]
    by (simp add: sortRanges_def arrayGet_def arraySet_def)
  then show "parse toDom data \<lparr>order = [2, 1], lastRangeBackward = b\<rparr>
     = Inr (ViewSelection v \<lparr>getRanges = [r2, r1], isBackward = b\<rparr>)"
    using v0 by (simp add: parse_def parseDom_def setRanges_def)
qed

theorem order_two_one_witness:
  "parse htmlToDom ''<p>[<b>a</b>]{b}</p>'' \<lparr>order = [2, 1], lastRangeBackward = False\<rparr>
     = Inr (ViewSelection (Element Plain ''p'' [] [Element Plain ''b'' [] [Text ''a''], Text ''b''])
         \<lparr>getRanges = [Range (Position [1] 0) (Position [1] 1), Range (Position [] 0) (Position [] 1)],
          isBackward = False\<rparr>)"
proof -
  have h: "parse htmlToDom ''<p>[<b>a</b>]{b}</p>'' \<lparr>order = [], lastRangeBackward = False\<rparr>
     = Inr (ViewSelection (Element Plain ''p'' [] [Element Plain ''b'' [] [Text ''a''], Text ''b''])
       \<lparr>getRanges = [Range (Position [] 0) (Position [] 1), Range (Position [1] 0) (Position [1] 1)],
          isBackward = False\<rparr>)"
    by code_simp
  show ?thesis using order_two_one[of htmlToDom "''<p>[<b>a</b>]{b}</p>''" False] h by simp
qed

lemma feed_append:
  "feed (xs @ ys) st = (case feed xs st of Inl e \<Rightarrow> Inl e | Inr st' \<Rightarrow> feed ys st')"
proof (induction xs arbitrary: st)
  case Nil show ?case by simp
next
  case (Cons x xs)
  obtain rs r where st: "st = (rs, r)" by (cases st)
  show ?case unfolding st using Cons.IH by (simp split: option.splits)
qed

lemma parse_createRanges_error:
  "walkDom (toDom data) = Inr v \<Longrightarrow> getPositions None v = Inr (Some v', ps) \<Longrightarrow>
   createRanges ps = Inl e \<Longrightarrow> parse toDom data options = Inl e"
  by (simp add: parse_def parseDom_def rangeParser_parse_def)

text \<open>
  C6. The four inputs of the specification fail with \<open>UnbalancedRangeError\<close>, for every HTML
  processor that returns their generic tree. In general, when the scan succeeds with the
  positions \<open>before @ item # after\<close>: an end token \<open>item\<close> met while no range is open (the loop
  has consumed \<open>before\<close> and holds no range), a start token met while a range is open, and a
  range still open when all positions are consumed, each make \<^verbatim>\<open>parse\<close> fail with
  \<open>UnbalancedRangeError\<close>, whatever the options.
\<close>

theorem unbalanced_ranges:
  "(toDom ''<p>]text[</p>'' = DomDocumentFragment [DomElement ''p'' [] [DomText '']text['']] \<longrightarrow>
      parse toDom ''<p>]text[</p>'' options = Inl UnbalancedRangeError)
   \<and> (toDom ''<p>[text</p>'' = DomDocumentFragment [DomElement ''p'' [] [DomText ''[text'']] \<longrightarrow>
      parse toDom ''<p>[text</p>'' options = Inl UnbalancedRangeError)
   \<and> (toDom ''<p>te{xt</p>'' = DomDocumentFragment [DomElement ''p'' [] [DomText ''te{xt'']] \<longrightarrow>
      parse toDom ''<p>te{xt</p>'' options = Inl UnbalancedRangeError)
   \<and> (toDom ''<p>[<b>[x]</b>]</p>'' = DomDocumentFragment
          [DomElement ''p'' [] [DomText ''['', DomElement ''b'' [] [DomText ''[x]''], DomText '']'']] \<longrightarrow>
      parse toDom ''<p>[<b>[x]</b>]</p>'' options = Inl UnbalancedRangeError)
   \<and> (walkDom (toDom data) = Inr v \<and> getPositions None v = Inr (Some v', before @ item # after)
        \<and> feed before ([], None) = Inr (rs, None) \<and> isEndToken (item_bracket item) \<longrightarrow>
      parse toDom data options = Inl UnbalancedRangeError)
   \<and> (walkDom (toDom data) = Inr v \<and> getPositions None v = Inr (Some v', before @ item # after)
        \<and> feed before ([], None) = Inr (rs, Some r) \<and> isStartToken (item_bracket item) \<longrightarrow>
      parse toDom data options = Inl UnbalancedRangeError)
   \<and> (walkDom (toDom data) = Inr v \<and> getPositions None v = Inr (Some v', positions)
        \<and> feed positions ([], None) = Inr (rs, Some r) \<longrightarrow>
      parse toDom data options = Inl UnbalancedRangeError)"
proof (intro conjI impI)
  assume h: "toDom ''<p>]text[</p>'' = DomDocumentFragment [DomElement ''p'' [] [DomText '']text['']]"
  have "parseDom (DomDocumentFragment [DomElement ''p'' [] [DomText '']text['']]) options
          = Inl UnbalancedRangeError"
    unfolding parseDom_def by code_simp
  then show "parse toDom ''<p>]text[</p>'' options = Inl UnbalancedRangeError"
    using h by (simp add: parse_def)
next
  assume h: "toDom ''<p>[text</p>'' = DomDocumentFragment [DomElement ''p'' [] [DomText ''[text'']]"
  have "parseDom (DomDocumentFragment [DomElement ''p'' [] [DomText ''[text'']]) options
          = Inl UnbalancedRangeError"
    unfolding parseDom_def by code_simp
  then show "parse toDom ''<p>[text</p>'' options = Inl UnbalancedRangeError"
    using h by (simp add: parse_def)
next
  assume h: "toDom ''<p>te{xt</p>'' = DomDocumentFragment [DomElement ''p'' [] [DomText ''te{xt'']]"
  have "parseDom (DomDocumentFragment [DomElement ''p'' [] [DomText ''te{xt'']]) options
          = Inl UnbalancedRangeError"
    unfolding parseDom_def by code_simp
  then show "parse toDom ''<p>te{xt</p>'' options = Inl UnbalancedRangeError"
    using h by (simp add: parse_def)
next
  assume h: "toDom ''<p>[<b>[x]</b>]</p>'' = DomDocumentFragment
          [DomElement ''p'' [] [DomText ''['', DomElement ''b'' [] [DomText ''[x]''], DomText '']'']]"
  have "parseDom (DomDocumentFragment
          [DomElement ''p'' [] [DomText ''['', DomElement ''b'' [] [DomText ''[x]''], DomText '']'']]) options
          = Inl UnbalancedRangeError"
    unfolding parseDom_def by code_simp
  then show "parse toDom ''<p>[<b>[x]</b>]</p>'' options = Inl UnbalancedRangeError"
    using h by (simp add: parse_def)
next
  assume h: "walkDom (toDom data) = Inr v \<and> getPositions None v = Inr (Some v', before @ item # after)
        \<and> feed before ([], None) = Inr (rs, None) \<and> isEndToken (item_bracket item)"
  then have "createRanges (before @ item # after) = Inl UnbalancedRangeError"
    by (simp add: createRanges_def feed_append)
  then show "parse toDom data options = Inl UnbalancedRangeError"
    using h parse_createRanges_error by blast
next
  assume h: "walkDom (toDom data) = Inr v \<and> getPositions None v = Inr (Some v', before @ item # after)
        \<and> feed before ([], None) = Inr (rs, Some r) \<and> isStartToken (item_bracket item)"
  then have "createRanges (before @ item # after) = Inl UnbalancedRangeError"
    by (simp add: createRanges_def feed_append)
  then show "parse toDom data options = Inl UnbalancedRangeError"
    using h parse_createRanges_error by blast
next
  assume h: "walkDom (toDom data) = Inr v \<and> getPositions None v = Inr (Some v', positions)
        \<and> feed positions ([], None) = Inr (rs, Some r)"
  then have "createRanges positions = Inl UnbalancedRangeError"
    by (simp add: createRanges_def)
  then show "parse toDom data options = Inl UnbalancedRangeError"
    using h parse_createRanges_error by blast
qed

theorem unbalanced_ranges_witness:
  "parse htmlToDom ''<p>]text[</p>'' \<lparr>order = [], lastRangeBackward = False\<rparr> = Inl UnbalancedRangeError
   \<and> parse htmlToDom ''<p>[text</p>'' \<lparr>order = [], lastRangeBackward = False\<rparr> = Inl UnbalancedRangeError
   \<and> parse htmlToDom ''<p>te{xt</p>'' \<lparr>order = [], lastRangeBackward = False\<rparr> = Inl UnbalancedRangeError
   \<and> parse htmlToDom ''<p>[<b>[x]</b>]</p>'' \<lparr>order = [], lastRangeBackward = False\<rparr>
       = Inl UnbalancedRangeError"
proof -
  let ?o = "\<lparr>order = [], lastRangeBackward = False\<rparr>"
  let ?p = "Element Plain ''p'' []"
  have d1: "htmlToDom ''<p>]text[</p>'' = DomDocumentFragment [DomElement ''p'' [] [DomText '']text['']]"
    by code_simp
  have d2: "htmlToDom ''<p>[text</p>'' = DomDocumentFragment [DomElement ''p'' [] [DomText ''[text'']]"
    by code_simp
  have d3: "htmlToDom ''<p>te{xt</p>'' = DomDocumentFragment [DomElement ''p'' [] [DomText ''te{xt'']]"
    by code_simp
  have d4: "htmlToDom ''<p>[<b>[x]</b>]</p>'' = DomDocumentFragment
          [DomElement ''p'' [] [DomText ''['', DomElement ''b'' [] [DomText ''[x]''], DomText '']'']]"
    by code_simp
  have g1: "walkDom (htmlToDom ''<p>]text[</p>'') = Inr (?p [Text '']text[''])
     \<and> getPositions None (?p [Text '']text['']) = Inr (Some (?p [Text ''text'']),
          [] @ \<lparr>item_bracket = CHR '']'', item_position = Position [] 0\<rparr>
             # [\<lparr>item_bracket = CHR ''['', item_position = Position [] 1\<rparr>])
     \<and> feed [] ([], None) = Inr ([], None)
     \<and> isEndToken (item_bracket \<lparr>item_bracket = CHR '']'', item_position = Position [] 0\<rparr>)"
    by code_simp
  have g2: "walkDom (htmlToDom ''<p>[<b>[x]</b>]</p>'')
       = Inr (?p [Text ''['', Element Plain ''b'' [] [Text ''[x]''], Text '']''])
     \<and> getPositions None (?p [Text ''['', Element Plain ''b'' [] [Text ''[x]''], Text '']''])
       = Inr (Some (?p [Element Plain ''b'' [] [Text ''x'']]),
          [\<lparr>item_bracket = CHR ''['', item_position = Position [] 0\<rparr>]
            @ \<lparr>item_bracket = CHR ''['', item_position = Position [0] 0\<rparr>
            # [\<lparr>item_bracket = CHR '']'', item_position = Position [0] 1\<rparr>,
               \<lparr>item_bracket = CHR '']'', item_position = Position [] 1\<rparr>])
     \<and> feed [\<lparr>item_bracket = CHR ''['', item_position = Position [] 0\<rparr>] ([], None)
          = Inr ([], Some (Range (Position [] 0) (Position [] 0)))
     \<and> isStartToken (item_bracket \<lparr>item_bracket = CHR ''['', item_position = Position [0] 0\<rparr>)"
    by code_simp
  have g3: "walkDom (htmlToDom ''<p>te{xt</p>'') = Inr (?p [Text ''te{xt''])
     \<and> getPositions None (?p [Text ''te{xt'']) = Inr (Some (?p [Text ''text'']),
          [\<lparr>item_bracket = CHR ''{'', item_position = Position [0] 2\<rparr>])
     \<and> feed [\<lparr>item_bracket = CHR ''{'', item_position = Position [0] 2\<rparr>] ([], None)
          = Inr ([], Some (Range (Position [0] 2) (Position [0] 2)))"
    by code_simp
  have c14: "parse htmlToDom ''<p>]text[</p>'' ?o = Inl UnbalancedRangeError
     \<and> parse htmlToDom ''<p>[text</p>'' ?o = Inl UnbalancedRangeError
     \<and> parse htmlToDom ''<p>te{xt</p>'' ?o = Inl UnbalancedRangeError
     \<and> parse htmlToDom ''<p>[<b>[x]</b>]</p>'' ?o = Inl UnbalancedRangeError"
    using unbalanced_ranges[of htmlToDom ?o] d1 d2 d3 d4 by blast
  have c5: "parse htmlToDom ''<p>]text[</p>'' ?o = Inl UnbalancedRangeError"
    using unbalanced_ranges[of htmlToDom ?o "''<p>]text[</p>''" "?p [Text '']text['']"
        "?p [Text ''text'']" "[]" "\<lparr>item_bracket = CHR '']'', item_position = Position [] 0\<rparr>"
        "[\<lparr>item_bracket = CHR ''['', item_position = Position [] 1\<rparr>]" "[]"] g1
    by blast
  have c6: "parse htmlToDom ''<p>[<b>[x]</b>]</p>'' ?o = Inl UnbalancedRangeError"
    using unbalanced_ranges[of htmlToDom ?o "''<p>[<b>[x]</b>]</p>''"
        "?p [Text ''['', Element Plain ''b'' [] [Text ''[x]''], Text '']'']"
        "?p [Element Plain ''b'' [] [Text ''x'']]"
        "[\<lparr>item_bracket = CHR ''['', item_position = Position [] 0\<rparr>]"
        "\<lparr>item_bracket = CHR ''['', item_position = Position [0] 0\<rparr>"
        "[\<lparr>item_bracket = CHR '']'', item_position = Position [0] 1\<rparr>,
               \<lparr>item_bracket = CHR '']'', item_position = Position [] 1\<rparr>]"
        "[]" "Range (Position [] 0) (Position [] 0)"] g2
    by blast
  have c7: "parse htmlToDom ''<p>te{xt</p>'' ?o = Inl UnbalancedRangeError"
    using unbalanced_ranges[of htmlToDom ?o "''<p>te{xt</p>''" "?p [Text ''te{xt'']"
        "?p [Text ''text'']" _ _ _ "[]" "Range (Position [0] 2) (Position [0] 2)"
        "[\<lparr>item_bracket = CHR ''{'', item_position = Position [0] 2\<rparr>]"] g3
    by blast
  show ?thesis using c14 c5 c6 c7 by blast
qed


section \<open>Properties of the scan\<close>

lemma getBrackets_append:
  "getBrackets i m (a @ b) = getBrackets i m a @ getBrackets (i + length a) (m + length (filter regexp a)) b"
  by (induction a arbitrary: i m) auto

lemma length_removeBrackets: "length (removeBrackets a) = length a - length (filter regexp a)"
  using sum_length_filter_compl[of regexp a] by (simp add: removeBrackets_def)

lemma getBrackets_token:
  assumes "regexp tok"
  shows "\<lparr>bracket = tok, textOffset = length (removeBrackets a)\<rparr> \<in> set (getBrackets 0 0 (a @ tok # b))"
proof -
  have "getBrackets (length a) (length (filter regexp a)) (tok # b)
        = \<lparr>bracket = tok, textOffset = length (removeBrackets a)\<rparr>
          # getBrackets (Suc (length a)) (Suc (length (filter regexp a))) b"
    using assms by (simp add: length_removeBrackets)
  then show ?thesis by (simp add: getBrackets_append)
qed

lemma map_bracket_getBrackets: "map bracket (getBrackets i m data) = filter regexp data"
  by (induction data arbitrary: i m) auto

lemma removeBrackets_append: "removeBrackets (a @ b) = removeBrackets a @ removeBrackets b"
  by (simp add: removeBrackets_def)

lemma removeBrackets_token: "regexp tok \<Longrightarrow> removeBrackets (tok # b) = removeBrackets b"
  by (simp add: removeBrackets_def)

lemma bracketPosition_error: "bracketPosition ctx text item = Inl e \<Longrightarrow> e = MarkerPlacementError"
  by (auto simp: bracketPosition_def split: if_splits)

lemma bracketPosition_bracket: "bracketPosition ctx text item = Inr p \<Longrightarrow> item_bracket p = bracket item"
  by (auto simp: bracketPosition_def split: if_splits)

lemma bracketPositions_error: "bracketPositions ctx text bs = Inl e \<Longrightarrow> e = MarkerPlacementError"
  by (induction bs) (auto split: sum.splits dest: bracketPosition_error)

lemma bracketPositions_brackets:
  "bracketPositions ctx text bs = Inr ps \<Longrightarrow> map item_bracket ps = map bracket bs"
  by (induction bs arbitrary: ps) (auto split: sum.splits dest: bracketPosition_bracket)

lemma bracketPositions_fails:
  "b \<in> set bs \<Longrightarrow> bracketPosition ctx text b = Inl MarkerPlacementError \<Longrightarrow>
   bracketPositions ctx text bs = Inl MarkerPlacementError"
proof (induction bs)
  case Nil then show ?case by simp
next
  case (Cons x bs)
  show ?case
  proof (cases "bracketPosition ctx text x")
    case (Inl e)
    then show ?thesis using bracketPosition_error[OF Inl] by simp
  next
    case (Inr p)
    then have "b \<in> set bs" using Cons.prems by auto
    then show ?thesis using Cons Inr by simp
  qed
qed

lemma textPositions_error:
  "textPositions ctx d = Inl e \<Longrightarrow>
   e = MarkerPlacementError \<or> (e = TypeError \<and> ctx = None \<and> removeBrackets d = [])"
  by (auto simp: textPositions_def Let_def split: if_splits sum.splits dest: bracketPositions_error)

lemma textPositions_result:
  "textPositions ctx d = Inr (r, items) \<Longrightarrow>
   r = (if removeBrackets d = [] then None else Some (Text (removeBrackets d)))
   \<and> map item_bracket items = filter regexp d"
  by (auto simp: textPositions_def Let_def map_bracket_getBrackets
      split: if_splits sum.splits dest: bracketPositions_brackets)

lemma textPositions_token_inside:
  assumes "regexp tok" "tok \<noteq> CHR ''{''" "tok \<noteq> CHR ''}''"
    "removeBrackets a \<noteq> []" "removeBrackets b \<noteq> []"
  shows "textPositions ctx (a @ tok # b) = Inl MarkerPlacementError"
proof -
  let ?d = "a @ tok # b"
  let ?item = "\<lparr>bracket = tok, textOffset = length (removeBrackets a)\<rparr>"
  have stripped: "removeBrackets ?d = removeBrackets a @ removeBrackets b"
    using assms(1) by (simp add: removeBrackets_append removeBrackets_token)
  have mem: "?item \<in> set (getBrackets 0 0 ?d)" using getBrackets_token[OF assms(1)] .
  have "bracketPosition ctx (removeBrackets ?d) ?item = Inl MarkerPlacementError"
    using assms stripped by (simp add: bracketPosition_def)
  then have "bracketPositions ctx (removeBrackets ?d) (getBrackets 0 0 ?d) = Inl MarkerPlacementError"
    using bracketPositions_fails[OF mem] by simp
  then show ?thesis using assms stripped by (simp add: textPositions_def Let_def)
qed

lemma in_set_getBrackets:
  "c \<in> set d \<Longrightarrow> regexp c \<Longrightarrow> \<exists>item\<in>set (getBrackets i m d). bracket item = c"
proof -
  assume "c \<in> set d" "regexp c"
  then have "c \<in> set (map bracket (getBrackets i m d))" by (simp add: map_bracket_getBrackets)
  then show ?thesis by auto
qed

lemma textPositions_token_in_empty:
  assumes "removeBrackets d = []" "CHR ''{'' \<in> set d \<or> CHR ''}'' \<in> set d"
  shows "textPositions ctx d = (if ctx = None then Inl TypeError else Inl MarkerPlacementError)"
proof (cases "ctx = None")
  case True
  then show ?thesis using assms by (simp add: textPositions_def Let_def)
next
  case False
  obtain item where item: "item \<in> set (getBrackets 0 0 d)" "bracket item = CHR ''{'' \<or> bracket item = CHR ''}''"
    using assms(2) in_set_getBrackets[of "CHR ''{''" d 0 0] in_set_getBrackets[of "CHR ''}''" d 0 0]
    by (auto simp: regexp_def)
  have "bracketPosition ctx [] item = Inl MarkerPlacementError"
    using item(2) by (simp add: bracketPosition_def)
  then have "bracketPositions ctx [] (getBrackets 0 0 d) = Inl MarkerPlacementError"
    using bracketPositions_fails[OF item(1)] by simp
  then show ?thesis using False assms by (simp add: textPositions_def Let_def)
qed

lemma getPositions_error:
  "(getPositions ctx v = Inl e \<longrightarrow>
      e = MarkerPlacementError \<or> (e = TypeError \<and> ctx = None \<and> (\<exists>d. v = Text d \<and> removeBrackets d = [])))"
  "(getChildPositions parent index children = Inl e \<longrightarrow> e = MarkerPlacementError)"
proof (induction ctx v and parent index children rule: getPositions_getChildPositions.induct)
  case (3 ctx data)
  then show ?case using textPositions_error by auto
next
  case (5 parent index child children)
  show ?case
  proof
    assume a: "getChildPositions parent index (child # children) = Inl e"
    show "e = MarkerPlacementError"
    proof (cases "getPositions (Some (parent, index)) child")
      case (Inl e')
      then show ?thesis using a 5(1) by auto
    next
      case (Inr res)
      obtain r items where res: "res = (r, items)" by (cases res)
      show ?thesis
      proof (cases r)
        case None
        then show ?thesis using a Inr res 5(2)[OF Inr[unfolded res] refl None]
          by (auto split: sum.splits)
      next
        case (Some c')
        then show ?thesis using a Inr res 5(3)[OF Inr[unfolded res] refl Some]
          by (auto split: sum.splits)
      qed
    qed
  qed
qed (auto split: sum.splits)

lemma getPositions_result_aux:
  "(\<forall>r items. getPositions ctx v = Inr (r, items) \<longrightarrow>
      optTexts r = filter (\<lambda>t. t \<noteq> []) (map removeBrackets (texts v))
      \<and> map item_bracket items = filter regexp (concat (texts v)))"
  "(\<forall>children' items. getChildPositions parent index children = Inr (children', items) \<longrightarrow>
      concat (map texts children') = filter (\<lambda>t. t \<noteq> []) (map removeBrackets (concat (map texts children)))
      \<and> map item_bracket items = filter regexp (concat (concat (map texts children))))"
proof (induction ctx v and parent index children rule: getPositions_getChildPositions.induct)
  case (1 ctx children)
  show ?case
  proof (intro allI impI)
    fix r items assume a: "getPositions ctx (Fragment children) = Inr (r, items)"
    then obtain cs' where c: "getChildPositions (nodePath ctx) 0 children = Inr (cs', items)"
      and r: "r = Some (Fragment cs')"
      by (auto split: sum.splits)
    show "optTexts r = filter (\<lambda>t. t \<noteq> []) (map removeBrackets (texts (Fragment children)))
      \<and> map item_bracket items = filter regexp (concat (texts (Fragment children)))"
      using 1 c r by simp
  qed
next
  case (2 ctx k name attributes children)
  show ?case
  proof (intro allI impI)
    fix r items assume a: "getPositions ctx (Element k name attributes children) = Inr (r, items)"
    then obtain cs' where c: "getChildPositions (nodePath ctx) 0 children = Inr (cs', items)"
      and r: "r = Some (Element k name attributes cs')"
      by (auto split: sum.splits)
    show "optTexts r = filter (\<lambda>t. t \<noteq> []) (map removeBrackets (texts (Element k name attributes children)))
      \<and> map item_bracket items = filter regexp (concat (texts (Element k name attributes children)))"
      using 2 c r by simp
  qed
next
  case (3 ctx data)
  show ?case using textPositions_result[of ctx data] by auto
next
  case (4 parent index)
  show ?case by simp
next
  case (5 parent index child children)
  show ?case
  proof (intro allI impI)
    fix children' items
    assume a: "getChildPositions parent index (child # children) = Inr (children', items)"
    then obtain r its where c: "getPositions (Some (parent, index)) child = Inr (r, its)"
      by (auto split: sum.splits)
    have h1: "optTexts r = filter (\<lambda>t. t \<noteq> []) (map removeBrackets (texts child))
      \<and> map item_bracket its = filter regexp (concat (texts child))"
      using 5(1) c by simp
    show "concat (map texts children') = filter (\<lambda>t. t \<noteq> []) (map removeBrackets (concat (map texts (child # children))))
      \<and> map item_bracket items = filter regexp (concat (concat (map texts (child # children))))"
    proof (cases r)
      case None
      from a c None obtain cs' its' where
        rest: "getChildPositions parent index children = Inr (cs', its')"
        and eq: "children' = cs'" "items = its @ its'"
        by (auto split: sum.splits)
      have "concat (map texts cs') = filter (\<lambda>t. t \<noteq> []) (map removeBrackets (concat (map texts children)))
         \<and> map item_bracket its' = filter regexp (concat (concat (map texts children)))"
        using 5(2)[OF c refl None] rest by simp
      then show ?thesis using h1 None eq by simp
    next
      case (Some c')
      from a c Some obtain cs' its' where
        rest: "getChildPositions parent (Suc index) children = Inr (cs', its')"
        and eq: "children' = c' # cs'" "items = its @ its'"
        by (auto split: sum.splits)
      have "concat (map texts cs') = filter (\<lambda>t. t \<noteq> []) (map removeBrackets (concat (map texts children)))
         \<and> map item_bracket its' = filter regexp (concat (concat (map texts children)))"
        using 5(3)[OF c refl Some] rest by simp
      then show ?thesis using h1 Some eq by simp
    qed
  qed
qed

lemma getPositions_result:
  "getPositions ctx v = Inr (r, items) \<Longrightarrow>
      optTexts r = filter (\<lambda>t. t \<noteq> []) (map removeBrackets (texts v))
      \<and> map item_bracket items = filter regexp (concat (texts v))"
  using getPositions_result_aux(1) by blast

lemma getPositions_fails:
  "(t \<in> set (texts v) \<and> (\<forall>c. \<exists>e. textPositions c t = Inl e) \<longrightarrow> (\<exists>e. getPositions ctx v = Inl e))"
  "(t \<in> set (concat (map texts children)) \<and> (\<forall>c. \<exists>e. textPositions c t = Inl e) \<longrightarrow>
      (\<exists>e. getChildPositions parent index children = Inl e))"
proof (induction ctx v and parent index children rule: getPositions_getChildPositions.induct)
  case (1 ctx children)
  then show ?case by (auto split: sum.splits)
next
  case (2 ctx k name attributes children)
  then show ?case by (auto split: sum.splits)
next
  case (3 ctx data)
  then show ?case by auto
next
  case (4 parent index)
  then show ?case by simp
next
  case (5 parent index child children)
  show ?case
  proof
    assume a: "t \<in> set (concat (map texts (child # children))) \<and> (\<forall>c. \<exists>e. textPositions c t = Inl e)"
    show "\<exists>e. getChildPositions parent index (child # children) = Inl e"
    proof (cases "getPositions (Some (parent, index)) child")
      case (Inl e)
      then show ?thesis by simp
    next
      case (Inr res)
      obtain r its where res: "res = (r, its)" by (cases res)
      have "t \<notin> set (texts child)" using 5(1) a Inr by auto
      then have t: "t \<in> set (concat (map texts children))" using a by auto
      show ?thesis
      proof (cases r)
        case None
        then have "\<exists>e. getChildPositions parent index children = Inl e"
          using 5(2)[OF Inr[unfolded res] refl None] t a by blast
        then show ?thesis using Inr res None by auto
      next
        case (Some c')
        then have "\<exists>e. getChildPositions parent (Suc index) children = Inl e"
          using 5(3)[OF Inr[unfolded res] refl Some] t a by blast
        then show ?thesis using Inr res Some by auto
      qed
    qed
  qed
qed

lemma parse_scan_error:
  "walkDom (toDom data) = Inr v \<Longrightarrow> getPositions None v = Inl e \<Longrightarrow> parse toDom data options = Inl e"
  by (simp add: parse_def parseDom_def rangeParser_parse_def)

lemma parse_success:
  assumes "parse toDom data options = Inr res"
  shows "\<exists>v positions. walkDom (toDom data) = Inr v
          \<and> getPositions None v = Inr (Some (resultView res), positions)"
proof -
  from assms obtain v where v: "walkDom (toDom data) = Inr v"
    by (auto simp: parse_def parseDom_def split: sum.splits)
  from assms v obtain v' a where a: "rangeParser_parse v (order options) = Inr (v', a)"
    by (auto simp: parse_def parseDom_def split: sum.splits)
  then obtain ps where ps: "getPositions None v = Inr (Some v', ps)"
    by (auto simp: rangeParser_parse_def split: sum.splits option.splits prod.splits if_splits)
  have "resultView res = v'"
    using assms v a by (auto simp: parse_def parseDom_def split: sum.splits if_splits)
  then show ?thesis using v ps by auto
qed

text \<open>
  The placement rules where the text node has a parent. In the scan of the tree that the
  tree builder returned:
  \<^item> a text node \<open>a @ tok # b\<close> where \<open>tok\<close> is \<^verbatim>\<open>[\<close> or \<^verbatim>\<open>]\<close> and the stripped text is not
    empty on either side of it makes \<^verbatim>\<open>parse\<close> fail with \<open>MarkerPlacementError\<close>;
  \<^item> a text node inside an element or a fragment whose stripped content is empty and that
    holds \<^verbatim>\<open>{\<close> or \<^verbatim>\<open>}\<close> makes \<^verbatim>\<open>parse\<close> fail with \<open>MarkerPlacementError\<close>;
  \<^item> the texts of the tree \<^verbatim>\<open>parse\<close> returns are the stripped texts of the built tree that
    are not empty, in order: a text node whose stripped content is empty is removed, and no
    empty text node is in the result.
\<close>

lemma marker_placement_under_parent:
  "(walkDom (toDom data) = Inr v \<and> a @ tok # b \<in> set (texts v) \<and> (tok = CHR ''['' \<or> tok = CHR '']'')
      \<and> removeBrackets a \<noteq> [] \<and> removeBrackets b \<noteq> [] \<longrightarrow>
      parse toDom data options = Inl MarkerPlacementError)
   \<and> (walkDom (toDom data) = Inr v \<and> (\<forall>d. v \<noteq> Text d) \<and> t \<in> set (texts v) \<and> removeBrackets t = []
      \<and> (CHR ''{'' \<in> set t \<or> CHR ''}'' \<in> set t) \<longrightarrow>
      parse toDom data options = Inl MarkerPlacementError)
   \<and> (parse toDom data options = Inr res \<longrightarrow>
        (\<exists>v. walkDom (toDom data) = Inr v
           \<and> texts (resultView res) = filter (\<lambda>t. t \<noteq> []) (map removeBrackets (texts v)))
        \<and> [] \<notin> set (texts (resultView res)))"
proof (intro conjI impI)
  assume h: "walkDom (toDom data) = Inr v \<and> a @ tok # b \<in> set (texts v) \<and> (tok = CHR ''['' \<or> tok = CHR '']'')
      \<and> removeBrackets a \<noteq> [] \<and> removeBrackets b \<noteq> []"
  then have "\<forall>c. textPositions c (a @ tok # b) = Inl MarkerPlacementError"
    using textPositions_token_inside[of tok a b] by (auto simp: regexp_def)
  then obtain e where e: "getPositions None v = Inl e"
    using getPositions_fails(1)[of "a @ tok # b" v None] h by auto
  have "\<not> (\<exists>d. v = Text d \<and> removeBrackets d = [])"
    using h by (auto simp: removeBrackets_append)
  then have "e = MarkerPlacementError" using getPositions_error(1)[of None v e] e by auto
  then show "parse toDom data options = Inl MarkerPlacementError"
    using parse_scan_error h e by blast
next
  assume h: "walkDom (toDom data) = Inr v \<and> (\<forall>d. v \<noteq> Text d) \<and> t \<in> set (texts v) \<and> removeBrackets t = []
      \<and> (CHR ''{'' \<in> set t \<or> CHR ''}'' \<in> set t)"
  then have "\<forall>c. \<exists>e. textPositions c t = Inl e"
    using textPositions_token_in_empty[of t] by auto
  then obtain e where e: "getPositions None v = Inl e"
    using getPositions_fails(1)[of t v None] h by auto
  then have "e = MarkerPlacementError" using getPositions_error(1)[of None v e] h by auto
  then show "parse toDom data options = Inl MarkerPlacementError"
    using parse_scan_error h e by blast
next
  assume h: "parse toDom data options = Inr res"
  then obtain v positions where v: "walkDom (toDom data) = Inr v"
      "getPositions None v = Inr (Some (resultView res), positions)"
    using parse_success by blast
  have t: "texts (resultView res) = filter (\<lambda>t. t \<noteq> []) (map removeBrackets (texts v))"
    using getPositions_result[of None v "Some (resultView res)" positions] v by simp
  then show "\<exists>v. walkDom (toDom data) = Inr v
           \<and> texts (resultView res) = filter (\<lambda>t. t \<noteq> []) (map removeBrackets (texts v))"
    using v by blast
  show "[] \<notin> set (texts (resultView res))" using t by simp
qed

lemma marker_placement_examples:
  "parse htmlToDom ''<p>fo[o</p>'' \<lparr>order = [], lastRangeBackward = False\<rparr> = Inl MarkerPlacementError
   \<and> parse htmlToDom ''<p>{}</p>'' \<lparr>order = [], lastRangeBackward = False\<rparr> = Inl MarkerPlacementError
   \<and> parse htmlToDom ''<p>[]</p>'' \<lparr>order = [], lastRangeBackward = False\<rparr>
       = Inr (ViewSelection (Element Plain ''p'' [] [])
           \<lparr>getRanges = [Range (Position [] 0) (Position [] 0)], isBackward = False\<rparr>)
   \<and> [] \<notin> set (texts (Element Plain ''p'' [] []))"
proof -
  let ?o = "\<lparr>order = [], lastRangeBackward = False\<rparr>"
  let ?res = "ViewSelection (Element Plain ''p'' [] [])
           \<lparr>getRanges = [Range (Position [] 0) (Position [] 0)], isBackward = False\<rparr>"
  have h1: "walkDom (htmlToDom ''<p>fo[o</p>'') = Inr (Element Plain ''p'' [] [Text ''fo[o''])
     \<and> ''fo'' @ CHR ''['' # ''o'' \<in> set (texts (Element Plain ''p'' [] [Text ''fo[o'']))
     \<and> (CHR ''['' = CHR ''['' \<or> CHR ''['' = CHR '']'')
     \<and> removeBrackets ''fo'' \<noteq> [] \<and> removeBrackets ''o'' \<noteq> []"
    by code_simp
  have h2: "walkDom (htmlToDom ''<p>{}</p>'') = Inr (Element Plain ''p'' [] [Text ''{}''])
     \<and> (\<forall>d. Element Plain ''p'' [] [Text ''{}''] \<noteq> Text d)
     \<and> ''{}'' \<in> set (texts (Element Plain ''p'' [] [Text ''{}'']))
     \<and> removeBrackets ''{}'' = []
     \<and> (CHR ''{'' \<in> set ''{}'' \<or> CHR ''}'' \<in> set ''{}'')"
    by (simp add: htmlToDom_def makeTag_def convertElement_def convertElementName_def
          toLowerCase_def toLowerCaseChar_def copyAttributes_def removeBrackets_def regexp_def)
  have h3: "parse htmlToDom ''<p>[]</p>'' ?o = Inr ?res" by code_simp
  have c1: "parse htmlToDom ''<p>fo[o</p>'' ?o = Inl MarkerPlacementError"
    using marker_placement_under_parent[of htmlToDom "''<p>fo[o</p>''" "Element Plain ''p'' [] [Text ''fo[o'']"
        "''fo''" "CHR ''[''" "''o''" ?o] h1 by blast
  have c2: "parse htmlToDom ''<p>{}</p>'' ?o = Inl MarkerPlacementError"
    using marker_placement_under_parent[of htmlToDom "''<p>{}</p>''" "Element Plain ''p'' [] [Text ''{}'']"
        "''fo''" "CHR ''[''" "''o''" ?o "''{}''"] h2 by blast
  have c3: "[] \<notin> set (texts (resultView ?res))"
    using marker_placement_under_parent[of htmlToDom "''<p>[]</p>''" _ _ _ _ ?o _ ?res] h3 by blast
  show ?thesis using c1 c2 c3 h3 by simp
qed

text \<open>
  C7 fails for a text node that is the root. The markup \<^verbatim>\<open>{}\<close> is one text node, and the
  tree builder returns the only child of the fragment as the root. Its stripped content is
  empty, so \<^verbatim>\<open>_getPositions\<close> removes it from its parent before it looks at the brackets;
  the root has no parent, and \<^verbatim>\<open>parse\<close> ends in a \<open>TypeError\<close> where the rule for a
  text-boundary token in an empty text node gives \<open>MarkerPlacementError\<close>. In the same way
  the text \<^verbatim>\<open>[]\<close> alone is not removed and leaves no tree: \<^verbatim>\<open>parse\<close> ends in the
  \<open>TypeError\<close>.
\<close>

theorem root_text_marker_placement:
  "parseDom (DomDocumentFragment [DomText ''{}'']) \<lparr>order = [], lastRangeBackward = False\<rparr>
     = Inl TypeError
   \<and> parse htmlToDom ''{}'' \<lparr>order = [], lastRangeBackward = False\<rparr> = Inl TypeError
   \<and> parseDom (DomDocumentFragment [DomText ''[]'']) \<lparr>order = [], lastRangeBackward = False\<rparr>
     = Inl TypeError
   \<and> parse htmlToDom ''[]'' \<lparr>order = [], lastRangeBackward = False\<rparr> = Inl TypeError"
  by code_simp

lemma space_not_in_removeBrackets: "CHR '' '' \<notin> set (removeBrackets t)"
  by (simp add: removeBrackets_def regexp_def)

lemma feed_space_first:
  "items \<noteq> [] \<Longrightarrow> \<forall>i\<in>set items. item_bracket i = CHR '' '' \<Longrightarrow> createRanges items = Inl TypeError"
  by (cases items) (auto simp: createRanges_def isStartToken_def isEndToken_def)

text \<open>
  The space of the character class is pushed to the brackets like a token. A space with
  stripped text on both sides of it takes the branch of the element delimiters and makes
  \<^verbatim>\<open>parse\<close> fail with \<open>MarkerPlacementError\<close>; and when the texts hold a space and none of
  the four tokens, \<^verbatim>\<open>parse\<close> fails, with \<open>MarkerPlacementError\<close> or with the \<open>TypeError\<close>
  of closing a range that was never opened. In a tree that \<^verbatim>\<open>parse\<close> returns no text holds
  a space.
\<close>

lemma space_is_a_delimiter:
  "regexp (CHR '' '')
   \<and> (parse toDom data options = Inr res \<longrightarrow>
        (\<exists>v. walkDom (toDom data) = Inr v
           \<and> texts (resultView res) = filter (\<lambda>t. t \<noteq> []) (map removeBrackets (texts v)))
        \<and> list_all (\<lambda>t. t \<noteq> [] \<and> CHR '' '' \<notin> set t) (texts (resultView res)))
   \<and> (walkDom (toDom data) = Inr v \<and> a @ CHR '' '' # b \<in> set (texts v)
        \<and> removeBrackets a \<noteq> [] \<and> removeBrackets b \<noteq> [] \<longrightarrow>
        parse toDom data options = Inl MarkerPlacementError)
   \<and> (walkDom (toDom data) = Inr v \<and> CHR '' '' \<in> set (concat (texts v))
        \<and> list_all (\<lambda>c. c \<noteq> CHR ''['' \<and> c \<noteq> CHR '']'' \<and> c \<noteq> CHR ''{'' \<and> c \<noteq> CHR ''}'') (concat (texts v)) \<longrightarrow>
        parse toDom data options = Inl MarkerPlacementError \<or> parse toDom data options = Inl TypeError)"
proof (intro conjI impI)
  show "regexp (CHR '' '')" by (simp add: regexp_def)
next
  assume h: "parse toDom data options = Inr res"
  then obtain v positions where v: "walkDom (toDom data) = Inr v"
      "getPositions None v = Inr (Some (resultView res), positions)"
    using parse_success by blast
  have t: "texts (resultView res) = filter (\<lambda>t. t \<noteq> []) (map removeBrackets (texts v))"
    using getPositions_result[of None v "Some (resultView res)" positions] v by simp
  then show "\<exists>v. walkDom (toDom data) = Inr v
           \<and> texts (resultView res) = filter (\<lambda>t. t \<noteq> []) (map removeBrackets (texts v))"
    using v by blast
  show "list_all (\<lambda>t. t \<noteq> [] \<and> CHR '' '' \<notin> set t) (texts (resultView res))"
    unfolding t by (auto simp: list_all_iff space_not_in_removeBrackets)
next
  assume h: "walkDom (toDom data) = Inr v \<and> a @ CHR '' '' # b \<in> set (texts v)
        \<and> removeBrackets a \<noteq> [] \<and> removeBrackets b \<noteq> []"
  then have "\<forall>c. textPositions c (a @ CHR '' '' # b) = Inl MarkerPlacementError"
    using textPositions_token_inside[of "CHR '' ''" a b] by (auto simp: regexp_def)
  then obtain e where e: "getPositions None v = Inl e"
    using getPositions_fails(1)[of "a @ CHR '' '' # b" v None] h by auto
  have "\<not> (\<exists>d. v = Text d \<and> removeBrackets d = [])"
    using h by (auto simp: removeBrackets_append)
  then have "e = MarkerPlacementError" using getPositions_error(1)[of None v e] e by auto
  then show "parse toDom data options = Inl MarkerPlacementError"
    using parse_scan_error h e by blast
next
  assume h: "walkDom (toDom data) = Inr v \<and> CHR '' '' \<in> set (concat (texts v))
        \<and> list_all (\<lambda>c. c \<noteq> CHR ''['' \<and> c \<noteq> CHR '']'' \<and> c \<noteq> CHR ''{'' \<and> c \<noteq> CHR ''}'') (concat (texts v))"
  show "parse toDom data options = Inl MarkerPlacementError \<or> parse toDom data options = Inl TypeError"
  proof (cases "getPositions None v")
    case (Inl e)
    then have "e = MarkerPlacementError \<or> e = TypeError" using getPositions_error(1)[of None v e] by auto
    then show ?thesis using parse_scan_error[of toDom data v e options] h Inl by auto
  next
    case (Inr res)
    obtain r items where res: "res = (r, items)" by (cases res)
    have br: "map item_bracket items = filter regexp (concat (texts v))"
      using getPositions_result[of None v r items] Inr res by simp
    have "CHR '' '' \<in> set (filter regexp (concat (texts v)))" using h by (simp add: regexp_def)
    then have "filter regexp (concat (texts v)) \<noteq> []" by (metis empty_iff list.set(1))
    then have ne: "items \<noteq> []" using br by (metis list.map_disc_iff)
    have "\<forall>c\<in>set (filter regexp (concat (texts v))). c = CHR '' ''"
      using h by (auto simp: regexp_def list_all_iff)
    then have "\<forall>i\<in>set items. item_bracket i = CHR '' ''"
      using br by (metis (no_types, lifting) image_eqI list.set_map)
    then have cr: "createRanges items = Inl TypeError" using feed_space_first ne by blast
    show ?thesis
    proof (cases r)
      case None
      then show ?thesis using h Inr res by (simp add: parse_def parseDom_def rangeParser_parse_def)
    next
      case (Some v')
      then show ?thesis using parse_createRanges_error[of toDom data v v' items TypeError options] h Inr res cr
        by simp
    qed
  qed
qed

lemma space_is_a_delimiter_examples:
  "parse htmlToDom ''<p>[foo </p>'' \<lparr>order = [], lastRangeBackward = False\<rparr>
     = Inr (ViewSelection (Element Plain ''p'' [] [Text ''foo''])
         \<lparr>getRanges = [Range (Position [] 0) (Position [] 1)], isBackward = False\<rparr>)
   \<and> parse htmlToDom ''<p>foo bar</p>'' \<lparr>order = [], lastRangeBackward = False\<rparr> = Inl MarkerPlacementError
   \<and> parse htmlToDom ''<p> foo</p>'' \<lparr>order = [], lastRangeBackward = False\<rparr> = Inl TypeError"
proof -
  let ?o = "\<lparr>order = [], lastRangeBackward = False\<rparr>"
  let ?res = "ViewSelection (Element Plain ''p'' [] [Text ''foo''])
         \<lparr>getRanges = [Range (Position [] 0) (Position [] 1)], isBackward = False\<rparr>"
  have h1: "parse htmlToDom ''<p>[foo </p>'' ?o = Inr ?res" by code_simp
  have h2: "walkDom (htmlToDom ''<p>foo bar</p>'') = Inr (Element Plain ''p'' [] [Text ''foo bar''])
     \<and> ''foo'' @ CHR '' '' # ''bar'' \<in> set (texts (Element Plain ''p'' [] [Text ''foo bar'']))
     \<and> removeBrackets ''foo'' \<noteq> [] \<and> removeBrackets ''bar'' \<noteq> []"
    by code_simp
  have h3: "walkDom (htmlToDom ''<p> foo</p>'') = Inr (Element Plain ''p'' [] [Text '' foo''])
     \<and> CHR '' '' \<in> set (concat (texts (Element Plain ''p'' [] [Text '' foo''])))
     \<and> list_all (\<lambda>c. c \<noteq> CHR ''['' \<and> c \<noteq> CHR '']'' \<and> c \<noteq> CHR ''{'' \<and> c \<noteq> CHR ''}'')
          (concat (texts (Element Plain ''p'' [] [Text '' foo''])))"
    by code_simp
  have n3: "parse htmlToDom ''<p> foo</p>'' ?o \<noteq> Inl MarkerPlacementError" by code_simp
  have c2: "parse htmlToDom ''<p>foo bar</p>'' ?o = Inl MarkerPlacementError"
    using space_is_a_delimiter[of htmlToDom "''<p>foo bar</p>''" ?o ?res
        "Element Plain ''p'' [] [Text ''foo bar'']" "''foo''" "''bar''"] h2 by blast
  have c3: "parse htmlToDom ''<p> foo</p>'' ?o = Inl TypeError"
    using space_is_a_delimiter[of htmlToDom "''<p> foo</p>''" ?o ?res
        "Element Plain ''p'' [] [Text '' foo'']" "''foo''" "''bar''"] h3 n3 by blast
  have c1: "list_all (\<lambda>t. t \<noteq> [] \<and> CHR '' '' \<notin> set t) (texts (resultView ?res))"
    using space_is_a_delimiter[of htmlToDom "''<p>[foo </p>''" ?o ?res] h1 by blast
  show ?thesis using h1 c2 c3 c1 by simp
qed

text \<open>
  C10 fails on its own example. The character class of \<^verbatim>\<open>_getPositions\<close> is written in a
  template string with a space at both ends of the four tokens, and the space became a member of
  the class. \<^verbatim>\<open><p>foo bar</p>\<close> is not parsed to a text node \<^verbatim>\<open>foobar\<close>: the space is taken
  for an element delimiter inside the text and \<^verbatim>\<open>parse\<close> fails with
  \<open>MarkerPlacementError\<close>. A space at the start of a text reaches \<^verbatim>\<open>_createRanges\<close>, where it
  closes a range that was never opened: a \<open>TypeError\<close>.
\<close>

theorem scanner_space_in_class:
  "regexp (CHR '' '')
   \<and> parseDom (DomDocumentFragment [DomElement ''p'' [] [DomText ''foo bar'']])
       \<lparr>order = [], lastRangeBackward = False\<rparr> = Inl MarkerPlacementError
   \<and> parse htmlToDom ''<p>foo bar</p>'' \<lparr>order = [], lastRangeBackward = False\<rparr>
       = Inl MarkerPlacementError
   \<and> parseDom (DomDocumentFragment [DomElement ''p'' [] [DomText '' foo'']])
       \<lparr>order = [], lastRangeBackward = False\<rparr> = Inl TypeError
   \<and> parse htmlToDom ''<p> foo</p>'' \<lparr>order = [], lastRangeBackward = False\<rparr> = Inl TypeError"
  by code_simp

section \<open>Properties of the stringifier\<close>

lemma elementRangesLoop_eq:
  "elementRangesLoop element offset rs (s, e, c) =
     (s @ startTokens rs (Position element offset) ''['',
      e @ endTokens rs (Position element offset) '']'',
      c @ collapsedTokens rs (Position element offset) ''[]'')"
  by (induction rs arbitrary: s e c)
     (auto simp: startTokens_def endTokens_def collapsedTokens_def Let_def)

lemma stringifyElementRanges_eq:
  "stringifyElementRanges this element offset
     = tokensAt (ranges this) (Position element offset) ''['' '']''"
  by (simp add: stringifyElementRanges_def elementRangesLoop_eq tokensAt_def)

lemma length_add [simp]:
  "length (addCollapsed result i t) = length result"
  "length (addStart result i t) = length result"
  "length (addEnd result i t) = length result"
  by (simp_all add: addCollapsed_def addStart_def addEnd_def)

lemma nth_addCollapsed:
  "k < length result \<Longrightarrow>
   letter (addCollapsed result i t ! k) = letter (result ! k)
   \<and> letter_start (addCollapsed result i t ! k) = letter_start (result ! k)
   \<and> letter_end (addCollapsed result i t ! k) = letter_end (result ! k)
   \<and> letter_collapsed (addCollapsed result i t ! k) = letter_collapsed (result ! k) @ (if i = k then t else [])"
  by (simp add: addCollapsed_def nth_list_update)

lemma nth_addStart:
  "k < length result \<Longrightarrow>
   letter (addStart result i t ! k) = letter (result ! k)
   \<and> letter_start (addStart result i t ! k) = letter_start (result ! k) @ (if i = k then t else [])
   \<and> letter_end (addStart result i t ! k) = letter_end (result ! k)
   \<and> letter_collapsed (addStart result i t ! k) = letter_collapsed (result ! k)"
  by (simp add: addStart_def nth_list_update)

lemma nth_addEnd:
  "k < length result \<Longrightarrow>
   letter (addEnd result i t ! k) = letter (result ! k)
   \<and> letter_start (addEnd result i t ! k) = letter_start (result ! k)
   \<and> letter_end (addEnd result i t ! k) = letter_end (result ! k) @ (if i = k then t else [])
   \<and> letter_collapsed (addEnd result i t ! k) = letter_collapsed (result ! k)"
  by (simp add: addEnd_def nth_list_update)

lemma length_textRangesStart [simp]: "length (textRangesStart node len r result) = length result"
  by (simp add: textRangesStart_def split: position.splits)

lemma length_textRangesEnd [simp]: "length (textRangesEnd node len r result) = length result"
  by (simp add: textRangesEnd_def split: position.splits)

lemma nth_textRangesStart:
  assumes "k < length result" "k \<le> len"
  shows "letter (textRangesStart node len r result ! k) = letter (result ! k)
   \<and> letter_start (textRangesStart node len r result ! k)
       = letter_start (result ! k) @ (if range_start r = Position node k \<and> \<not> isCollapsed r then ''{'' else [])
   \<and> letter_end (textRangesStart node len r result ! k) = letter_end (result ! k)
   \<and> letter_collapsed (textRangesStart node len r result ! k)
       = letter_collapsed (result ! k) @ (if range_start r = Position node k \<and> isCollapsed r then ''{}'' else [])"
proof (cases "range_start r")
  case (DetachedPosition x)
  then show ?thesis by (simp add: textRangesStart_def)
next
  case (Position sp so)
  show ?thesis
  proof (cases "sp = node \<and> so \<le> len")
    case False
    then have ne: "Position sp so \<noteq> Position node k" using assms by auto
    have "textRangesStart node len r result = result"
      unfolding textRangesStart_def Position using False by (simp only: position.case if_False)
    then show ?thesis using Position ne by auto
  next
    case True
    show ?thesis
    proof (cases "isCollapsed r")
      case c: True
      then have e: "range_end r = Position sp so" using Position by (simp add: isCollapsed_def)
      show ?thesis using Position True c e assms nth_addCollapsed[OF assms(1), of so "''{}''"]
        by (simp add: textRangesStart_def)
    next
      case c: False
      show ?thesis using Position True c assms nth_addStart[OF assms(1), of so "''{''"]
        by (simp add: textRangesStart_def)
    qed
  qed
qed

lemma nth_textRangesEnd:
  assumes "k < length result" "k \<le> len"
  shows "letter (textRangesEnd node len r result ! k) = letter (result ! k)
   \<and> letter_start (textRangesEnd node len r result ! k) = letter_start (result ! k)
   \<and> letter_end (textRangesEnd node len r result ! k)
       = letter_end (result ! k) @ (if range_end r = Position node k \<and> \<not> isCollapsed r then ''}'' else [])
   \<and> letter_collapsed (textRangesEnd node len r result ! k) = letter_collapsed (result ! k)"
proof (cases "range_end r")
  case (DetachedPosition x)
  then show ?thesis by (simp add: textRangesEnd_def)
next
  case (Position ep eo)
  show ?thesis
  proof (cases "ep = node \<and> eo \<le> len \<and> \<not> isCollapsed r")
    case False
    then have ne: "\<not> (Position ep eo = Position node k \<and> \<not> isCollapsed r)" using assms by auto
    have "textRangesEnd node len r result = result"
      unfolding textRangesEnd_def Position using False by (simp only: position.case if_False)
    then show ?thesis using Position ne by auto
  next
    case True
    show ?thesis using Position True assms nth_addEnd[OF assms(1), of eo "''}''"]
      by (simp add: textRangesEnd_def)
  qed
qed

lemma tokens_Cons:
  "startTokens (r # rs) p t = (if range_start r = p \<and> \<not> isCollapsed r then t else []) @ startTokens rs p t"
  "endTokens (r # rs) p t = (if range_end r = p \<and> \<not> isCollapsed r then t else []) @ endTokens rs p t"
  "collapsedTokens (r # rs) p t = (if range_start r = p \<and> isCollapsed r then t else []) @ collapsedTokens rs p t"
  by (simp_all add: startTokens_def endTokens_def collapsedTokens_def)

lemma tokens_Nil:
  "startTokens [] p t = []" "endTokens [] p t = []" "collapsedTokens [] p t = []"
  by (simp_all add: startTokens_def endTokens_def collapsedTokens_def)

lemma length_textRangesLoop [simp]: "length (textRangesLoop node len rs result) = length result"
  by (induction rs arbitrary: result) auto

lemma nth_textRangesLoop:
  "k < length result \<Longrightarrow> k \<le> len \<Longrightarrow>
   letter (textRangesLoop node len rs result ! k) = letter (result ! k)
   \<and> letter_start (textRangesLoop node len rs result ! k)
       = letter_start (result ! k) @ startTokens rs (Position node k) ''{''
   \<and> letter_end (textRangesLoop node len rs result ! k)
       = letter_end (result ! k) @ endTokens rs (Position node k) ''}''
   \<and> letter_collapsed (textRangesLoop node len rs result ! k)
       = letter_collapsed (result ! k) @ collapsedTokens rs (Position node k) ''{}''"
proof (induction rs arbitrary: result)
  case Nil
  then show ?case by (simp add: tokens_Nil)
next
  case (Cons r rs)
  let ?r1 = "textRangesStart node len r result"
  let ?r2 = "textRangesEnd node len r ?r1"
  have k1: "k < length ?r1" and k2: "k < length ?r2" using Cons.prems by simp_all
  note s1 = nth_textRangesStart[OF Cons.prems(1) Cons.prems(2), of node r]
  note s2 = nth_textRangesEnd[OF k1 Cons.prems(2), of node r]
  note ih = Cons.IH[OF k2 Cons.prems(2)]
  show ?case
    unfolding textRangesLoop.simps tokens_Cons using ih s1 s2 by (simp only: append_assoc)
qed

lemma length_letters [simp]: "length (letters data) = Suc (length data)"
  by (simp add: letters_def)

lemma nth_letters:
  "k \<le> length data \<Longrightarrow>
   letters data ! k = \<lparr>letter = (if k < length data then [data ! k] else []),
                        letter_start = [], letter_end = [], letter_collapsed = []\<rparr>"
  by (auto simp: letters_def nth_append)

lemma map_by_index: "map f xs = map (\<lambda>k. f (xs ! k)) [0..<length xs]"
  by (rule nth_equalityI) simp_all

lemma stringifyTextRanges_eq:
  "stringifyTextRanges this node data =
     concat (map (\<lambda>k. tokensAt (ranges this) (Position node k) ''{'' ''}''
                       @ (if k < length data then [data ! k] else []))
               [0..<Suc (length data)])"
proof -
  let ?L = "textRangesLoop node (length data) (ranges this) (letters data)"
  let ?f = "\<lambda>item. letter_end item @ letter_collapsed item @ letter_start item @ letter item"
  have len: "length ?L = Suc (length data)" by simp
  have "map ?f ?L = map (\<lambda>k. ?f (?L ! k)) [0..<length ?L]"
    by (rule map_by_index)
  also have "\<dots> = map (\<lambda>k. tokensAt (ranges this) (Position node k) ''{'' ''}''
                       @ (if k < length data then [data ! k] else [])) [0..<Suc (length data)]"
  proof (unfold len, rule map_cong[OF refl])
    fix k assume "k \<in> set [0..<Suc (length data)]"
    then have k: "k \<le> length data" by auto
    then have k': "k < length (letters data)" by simp
    show "?f (?L ! k) = tokensAt (ranges this) (Position node k) ''{'' ''}''
                       @ (if k < length data then [data ! k] else [])"
      using nth_textRangesLoop[OF k' k, of node "ranges this"] nth_letters[OF k]
      by (simp add: tokensAt_def)
  qed
  finally show ?thesis by (simp add: stringifyTextRanges_def)
qed

lemma walkChildren_eq:
  "walkChildren this root offset children =
     concat (map (\<lambda>i. walkView this (root @ [offset + i]) (children ! i)
                       @ stringifyElementRanges this root (Suc (offset + i)))
               [0..<length children])"
proof (induction children arbitrary: offset)
  case Nil
  show ?case by simp
next
  case (Cons c cs)
  have "[0..<length (c # cs)] = 0 # map Suc [0..<length cs]"
    by (simp add: upt_conv_Cons map_Suc_upt del: upt_Suc)
  then show ?case using Cons.IH[of "Suc offset"] by (simp add: comp_def)
qed

text \<open>
  The stringifier made by \<^verbatim>\<open>stringify\<close> holds the ranges of the selection, none without a
  selection; the selection has no part in the tags.
\<close>

lemma ranges_newViewStringify: "ranges (newViewStringify sel options) = selectionRanges sel"
  by (simp add: newViewStringify_def selectionRanges_def)

lemma type_without_selection:
  "stringifyElementType (newViewStringify sel options) k
     = stringifyElementType (newViewStringify None options) k"
  by (simp add: stringifyElementType_def newViewStringify_def)

lemma priority_without_selection:
  "stringifyElementPriority (newViewStringify sel options) k
     = stringifyElementPriority (newViewStringify None options) k"
  by (cases k) (simp_all add: stringifyElementPriority_def newViewStringify_def)

lemma name_without_selection:
  "stringifyElementName (newViewStringify sel options) k name
     = stringifyElementName (newViewStringify None options) k name"
  by (simp only: stringifyElementName_def type_without_selection[of sel]
        priority_without_selection[of sel])

lemma tags_without_selection:
  "stringifyElementOpen (newViewStringify sel options) k name attributes
     = stringifyElementOpen (newViewStringify None options) k name attributes"
  "stringifyElementClose (newViewStringify sel options) k name
     = stringifyElementClose (newViewStringify None options) k name"
  by (simp_all only: stringifyElementOpen_def stringifyElementClose_def
        name_without_selection[of sel])

lemma walkView_placeTokens:
  "walkView (newViewStringify sel options) root v = placeTokens (selectionRanges sel) options root v"
  "walkChildren (newViewStringify sel options) root offset children
     = placeChildren (selectionRanges sel) options root offset children"
proof (induction "newViewStringify sel options" root v and "newViewStringify sel options" root offset children
       rule: walkView_walkChildren.induct)
  case (1 root k name attributes children)
  then show ?case
    by (simp add: stringifyElementRanges_eq ranges_newViewStringify tags_without_selection[of sel])
next
  case (2 root children)
  then show ?case by (simp add: stringifyElementRanges_eq ranges_newViewStringify)
next
  case (3 root data)
  show ?case by (simp add: stringifyTextRanges_eq ranges_newViewStringify)
next
  case (4 root offset)
  show ?case by simp
next
  case (5 root offset child children)
  then show ?case by (simp add: stringifyElementRanges_eq ranges_newViewStringify)
qed

text \<open>
  C8. For every node, every selection (or none) and all options, the output of
  \<^verbatim>\<open>stringify\<close> is the markup of the node with the tokens of the ranges of the selection
  placed as the specification says (\<open>placeTokens\<close>): at every offset of an element or
  fragment and at every offset between the letters of a text, first a closing token for
  every range that ends there and is not collapsed, then a pair for every range collapsed
  there, then an opening token for every range that starts there and is not collapsed;
  brackets in elements and fragments, braces in texts. The two methods that write the
  tokens, on the stringifier that \<^verbatim>\<open>stringify\<close> makes from the selection, write these three
  groups in this order.
\<close>

theorem stringify_places_tokens:
  "stringify node sel options = placeTokens (selectionRanges sel) options [] node
   \<and> stringifyElementRanges (newViewStringify sel options) element offset
     = endTokens (selectionRanges sel) (Position element offset) '']''
       @ collapsedTokens (selectionRanges sel) (Position element offset) ''[]''
       @ startTokens (selectionRanges sel) (Position element offset) ''[''
   \<and> stringifyTextRanges (newViewStringify sel options) owner data
     = concat (map (\<lambda>i. endTokens (selectionRanges sel) (Position owner i) ''}''
                         @ collapsedTokens (selectionRanges sel) (Position owner i) ''{}''
                         @ startTokens (selectionRanges sel) (Position owner i) ''{''
                         @ (if i < length data then [data ! i] else []))
                 [0..<Suc (length data)])"
  using walkView_placeTokens(1)[of sel options "[]" node]
    stringifyElementRanges_eq[of "newViewStringify sel options" element offset]
    stringifyTextRanges_eq[of "newViewStringify sel options" owner data]
  by (simp add: stringify_def tokensAt_def ranges_newViewStringify)

text \<open>
  An element with a text and an element under five ranges: in the text, a range that ends
  at offset 2, one collapsed there and one that starts there; in the element at offset 1,
  the same three.
\<close>

theorem stringify_places_tokens_witness:
  "stringify (Element Plain ''p'' [] [Text ''foo'', Element Plain ''b'' [] []])
     (Some \<lparr>getRanges = [Range (Position [0] 2) (Position [] 1), Range (Position [0] 2) (Position [0] 2),
                          Range (Position [0] 0) (Position [0] 2), Range (Position [] 1) (Position [] 2),
                          Range (Position [] 1) (Position [] 1)],
            isBackward = False\<rparr>)
     \<lparr>opt_showType = False, opt_showPriority = False\<rparr>
   = ''<p>{fo}{}{o][][<b></b>]</p>''"
proof -
  let ?sel = "Some \<lparr>getRanges = [Range (Position [0] 2) (Position [] 1), Range (Position [0] 2) (Position [0] 2),
                          Range (Position [0] 0) (Position [0] 2), Range (Position [] 1) (Position [] 2),
                          Range (Position [] 1) (Position [] 1)],
            isBackward = False\<rparr>"
  let ?o = "\<lparr>opt_showType = False, opt_showPriority = False\<rparr>"
  let ?T = "Element Plain ''p'' [] [Text ''foo'', Element Plain ''b'' [] []]"
  have "placeTokens (selectionRanges ?sel) ?o [] ?T = ''<p>{fo}{}{o][][<b></b>]</p>''"
    by code_simp
  then show ?thesis using stringify_places_tokens[of ?T ?sel ?o] by simp
qed

section \<open>The scan of plain texts and of a pair of tokens\<close>



















section \<open>The round trip without ranges\<close>






































section \<open>The round trip of a collapsed range\<close>


























end
